theory Spec2Isabelle
  imports Complex_Main "HOL-Library.Log_Nat" "HOL-Library.Char_ord" "HOL-Library.List_Lexorder"
begin

section \<open>The YouTube downloader bot (bot.py)\<close>

text \<open>
  The bot is a conversation with three states, driven by six handlers. Each handler reads
  the per-user dictionary \<open>context.user_data\<close>, talks to the outside (the video provider,
  the file system, ffmpeg, the chat) and returns the next conversation state.

  The embedding passes the session explicitly: the two keys of \<open>user_data\<close>, the set of
  files on disk, and the trace of effects the handler has produced so far. Everything
  the outside decides (whether a URL resolves, whether a download, a transcode or a send
  succeeds, which path a download is written to) is read from an environment record,
  so every \<open>except\<close> branch of the source is a branch of the model. A handler
  calls each of these at most once, so the record holds one outcome for each.
\<close>

subsection \<open>Exceptions and conversation states\<close>

datatype py_error =
  ZeroDivisionError | OverflowError | FileNotFoundError
  | RegexMatchError | NetworkError | FfmpegError | TelegramError

text \<open>\<open>URL, FORMAT, RESOLUTION = range(3)\<close>; \<open>END\<close> is \<open>ConversationHandler.END\<close>.\<close>

datatype state = URL | FORMAT | RESOLUTION | END

subsection \<open>Python's true division of integers\<close>

text \<open>
  \<open>stream.filesize / (1024 * 1024)\<close> divides two Python integers into a float: the
  result is the binary64 number nearest to the exact quotient (ties to even), and
  \<open>OverflowError\<close> when that number is out of range. A finite float is a rational, so
  the model keeps floats as rationals and writes the rounding out: \<open>ilog2\<close> is the
  binary exponent of a positive rational, the significand has 53 bits, and below the
  normal range the spacing stays at \<open>2 powi -1074\<close>.
\<close>

definition ilog2 :: "rat \<Rightarrow> int" where
  "ilog2 q =
     (let (n, d) = quotient_of q; k = bitlen n - bitlen d
      in if 2 powi k \<le> q then k else k - 1)"

definition round_half_even :: "rat \<Rightarrow> int" where
  "round_half_even x =
     (let f = \<lfloor>x\<rfloor>; r = x - of_int f
      in if r < 1 / 2 then f
         else if 1 / 2 < r then f + 1
         else if even f then f else f + 1)"

definition float_round :: "rat \<Rightarrow> py_error + rat" where
  "float_round q =
     (if q = 0 then Inr 0
      else
        let a = \<bar>q\<bar>;
            e = max (ilog2 a - 52) (- 1074);
            r = of_int (round_half_even (a / 2 powi e)) * 2 powi e
        in if 2 ^ 1024 \<le> r then Inl OverflowError else Inr (sgn q * r))"

definition truediv :: "int \<Rightarrow> int \<Rightarrow> py_error + rat" where
  "truediv a b =
     (if b = 0 then Inl ZeroDivisionError else float_round (of_int a / of_int b))"

subsection \<open>Python's string operations\<close>

text \<open>\<open>s.split(sep)\<close> for a one-character separator: never the empty list.\<close>

fun py_split :: "char \<Rightarrow> string \<Rightarrow> string list" where
  "py_split sep [] = [[]]"
| "py_split sep (c # cs) =
     (if c = sep then [] # py_split sep cs
      else (case py_split sep cs of
              [] \<Rightarrow> [[c]]
            | w # ws \<Rightarrow> (c # w) # ws))"

definition starts_with :: "string \<Rightarrow> string \<Rightarrow> bool" where
  "starts_with s p = (take (length p) s = p)"

text \<open>
  \<open>s.replace(old, new)\<close>: scanning from the left, every occurrence of \<open>old\<close> that does
  not overlap an earlier one is replaced. With an empty \<open>old\<close>, Python puts \<open>new\<close>
  before every character and at the end.
\<close>

function py_replace :: "string \<Rightarrow> string \<Rightarrow> string \<Rightarrow> string" where
  "py_replace old new [] = (if old = [] then new else [])"
| "py_replace old new (c # cs) =
     (if old = [] then new @ c # py_replace old new cs
      else if starts_with (c # cs) old
           then new @ py_replace old new (drop (length old) (c # cs))
           else c # py_replace old new cs)"
  by pat_completeness auto
termination
  by (relation "measure (\<lambda>(old, new, s). length s)") auto



subsection \<open>Streams and the provider's object\<close>

datatype media_type = Video | Audio

record stream =
  itag :: nat
  mtype :: media_type
  subtype :: string
  is_progressive :: bool
  resolution :: "string option"
  fps :: nat
  filesize :: nat

text \<open>
  The \<open>YouTube\<close> object: its \<open>title\<close> and \<open>streams\<close> properties fetch from the
  network when read, so reading either can raise.
\<close>

record youtube =
  yt_title :: "py_error + string"
  yt_streams :: "py_error + stream list"

text \<open>\<open>size_mb = stream.filesize / (1024 * 1024)\<close>, on lines 55, 88 and 131.\<close>

definition size_mb :: "stream \<Rightarrow> py_error + rat" where
  "size_mb s = truediv (int (filesize s)) (1024 * 1024)"

definition includes_audio_track :: "stream \<Rightarrow> bool" where
  "includes_audio_track s = (is_progressive s \<or> mtype s = Audio)"

definition includes_video_track :: "stream \<Rightarrow> bool" where
  "includes_video_track s = (is_progressive s \<or> mtype s = Video)"

text \<open>
  The stream queries of the provider library, as \<open>select_video\<close> and \<open>download_audio\<close>
  call them. \<open>order_by(attr)\<close> drops the streams whose attribute is \<open>None\<close> and sorts
  the rest with Python's stable \<open>sorted\<close>, by the integer made of the attribute's
  digits; when some attribute has no digit, \<open>int\<close> raises \<open>ValueError\<close> and the
  strings themselves are the key. \<open>desc()\<close> reverses the sequence.
\<close>

definition filter_progressive_mp4 :: "stream list \<Rightarrow> stream list" where
  "filter_progressive_mp4 xs = filter (\<lambda>s. is_progressive s \<and> subtype s = ''mp4'') xs"

definition filter_only_audio :: "stream list \<Rightarrow> stream list" where
  "filter_only_audio xs =
     filter (\<lambda>s. includes_audio_track s \<and> \<not> includes_video_track s) xs"

definition first :: "stream list \<Rightarrow> stream option" where
  "first xs = (case xs of [] \<Rightarrow> None | x # _ \<Rightarrow> Some x)"

definition is_digit :: "char \<Rightarrow> bool" where
  "is_digit c = (c \<in> set ''0123456789'')"

definition int_of_digits :: "string \<Rightarrow> nat" where
  "int_of_digits ds = foldl (\<lambda>n c. 10 * n + (of_char c - 48)) 0 ds"

definition resolution_str :: "stream \<Rightarrow> string" where
  "resolution_str s = (case resolution s of None \<Rightarrow> [] | Some r \<Rightarrow> r)"

definition resolution_key :: "stream \<Rightarrow> nat" where
  "resolution_key s = int_of_digits (filter is_digit (resolution_str s))"

definition order_by_resolution :: "stream list \<Rightarrow> stream list" where
  "order_by_resolution xs =
     (let has_attribute = filter (\<lambda>s. resolution s \<noteq> None) xs
      in if list_all (\<lambda>s. filter is_digit (resolution_str s) \<noteq> []) has_attribute
         then sort_key resolution_key has_attribute
         else sort_key resolution_str has_attribute)"

definition desc :: "stream list \<Rightarrow> stream list" where
  "desc xs = rev xs"

text \<open>Line 44: the catalog \<open>select_video\<close> stores and lists.\<close>

definition catalog :: "stream list \<Rightarrow> stream list" where
  "catalog xs = desc (order_by_resolution (filter_progressive_mp4 xs))"

subsection \<open>Session, effects and the environment\<close>

text \<open>One line of the listing: index, label, fps, size in MB.\<close>

type_synonym listing_line = "nat \<times> string \<times> nat \<times> rat"

datatype reply =
  Welcome
  | GotIt string
  | InvalidUrl py_error
  | NoVideoSelected
  | NoMp4Streams
  | AvailableResolutions "listing_line list"
  | ErrorFetchingStreams py_error
  | NoVideoOrStreams
  | InvalidResolutionCommand
  | NoStreamFound string
  | VideoTooLarge rat
  | DownloadedSending string
  | Done
  | ErrorDownloadingVideo py_error
  | NoAudioStream
  | AudioTooLarge rat
  | ErrorProcessingAudio py_error
  | OperationCancelled

datatype event =
  Reply reply
  | FetchStarted stream
  | Transcode string string
  | SentVideo string
  | SentAudio string
  | Removed string

text \<open>
  \<open>video\<close> and \<open>streams\<close> are the two keys of \<open>context.user_data\<close> (\<open>None\<close>: the
  key is missing); \<open>files\<close> is the content of the disk; \<open>outbox\<close> is the trace.
\<close>

record ctx =
  video :: "youtube option"
  streams :: "stream list option"
  files :: "string set"
  outbox :: "event list"

text \<open>
  What the outside does during one handler call: \<open>YouTube(url)\<close> gives the object or
  raises; \<open>stream.download\<close> gives the path it wrote or raises; \<open>ffmpeg\<close> and the
  sending of the attachment succeed (\<open>None\<close>) or raise.

  The model is kind to the code where the outside is concerned: a download or a
  transcode that raises leaves no partial file, \<open>os.remove\<close> raises only for a file
  that is not there, and the text replies themselves do not raise.
\<close>

record env =
  youtube_result :: "py_error + youtube"
  download_result :: "py_error + string"
  ffmpeg_result :: "py_error option"
  send_result :: "py_error option"

definition emit :: "event \<Rightarrow> ctx \<Rightarrow> ctx" where
  "emit ev c = c\<lparr>outbox := outbox c @ [ev]\<rparr>"

definition reply_text :: "reply \<Rightarrow> ctx \<Rightarrow> ctx" where
  "reply_text r c = emit (Reply r) c"

text \<open>
  \<open>stream.download(output_path="downloads")\<close>: the trace records that the fetch was
  started; on success the file is on disk.
\<close>

definition stream_download :: "env \<Rightarrow> stream \<Rightarrow> ctx \<Rightarrow> (py_error + string) \<times> ctx" where
  "stream_download ev s c =
     (let c1 = emit (FetchStarted s) c
      in case download_result ev of
           Inl e \<Rightarrow> (Inl e, c1)
         | Inr p \<Rightarrow> (Inr p, c1\<lparr>files := insert p (files c1)\<rparr>))"

text \<open>\<open>os.remove(path)\<close> raises when the file is not there.\<close>

definition os_remove :: "string \<Rightarrow> ctx \<Rightarrow> (py_error + unit) \<times> ctx" where
  "os_remove p c =
     (if p \<in> files c then (Inr (), emit (Removed p) (c\<lparr>files := files c - {p}\<rparr>))
      else (Inl FileNotFoundError, c))"

text \<open>\<open>with open(path, 'rb') as f: update.message.reply_video(f, timeout=120)\<close>.\<close>

definition reply_video :: "env \<Rightarrow> string \<Rightarrow> ctx \<Rightarrow> (py_error + unit) \<times> ctx" where
  "reply_video ev p c =
     (if p \<notin> files c then (Inl FileNotFoundError, c)
      else case send_result ev of
             Some e \<Rightarrow> (Inl e, c)
           | None \<Rightarrow> (Inr (), emit (SentVideo p) c))"

definition reply_audio :: "env \<Rightarrow> string \<Rightarrow> ctx \<Rightarrow> (py_error + unit) \<times> ctx" where
  "reply_audio ev p c =
     (if p \<notin> files c then (Inl FileNotFoundError, c)
      else case send_result ev of
             Some e \<Rightarrow> (Inl e, c)
           | None \<Rightarrow> (Inr (), emit (SentAudio p) c))"

text \<open>\<open>ffmpeg.input(src).output(dst, ...).run()\<close>: on success the output file is on disk.\<close>

definition ffmpeg_run :: "env \<Rightarrow> string \<Rightarrow> string \<Rightarrow> ctx \<Rightarrow> (py_error + unit) \<times> ctx" where
  "ffmpeg_run ev src dst c =
     (case ffmpeg_result ev of
        Some e \<Rightarrow> (Inl e, c)
      | None \<Rightarrow> (Inr (), emit (Transcode src dst) (c\<lparr>files := insert dst (files c)\<rparr>)))"

subsection \<open>The handlers\<close>

definition start :: "ctx \<Rightarrow> state \<times> ctx" where
  "start c = (URL, reply_text Welcome c)"

text \<open>
  \<open>receive_url\<close>: the object is stored under \<open>'video'\<close> before its title is read
  for the reply, so a title that cannot be fetched leaves the key set.
\<close>

definition receive_url :: "env \<Rightarrow> string \<Rightarrow> ctx \<Rightarrow> state \<times> ctx" where
  "receive_url ev url c =
     (case youtube_result ev of
        Inl e \<Rightarrow> (URL, reply_text (InvalidUrl e) c)
      | Inr yt \<Rightarrow>
          (let c1 = c\<lparr>video := Some yt\<rparr>
           in case yt_title yt of
                Inl e \<Rightarrow> (URL, reply_text (InvalidUrl e) c1)
              | Inr t \<Rightarrow> (FORMAT, reply_text (GotIt t) c1)))"

text \<open>The loop of lines 52 to 56, numbering from \<open>i\<close>; the division can raise.\<close>

fun listing :: "nat \<Rightarrow> stream list \<Rightarrow> py_error + listing_line list" where
  "listing i [] = Inr []"
| "listing i (s # ss) =
     (case size_mb s of
        Inl e \<Rightarrow> Inl e
      | Inr mb \<Rightarrow>
          (case listing (Suc i) ss of
             Inl e \<Rightarrow> Inl e
           | Inr ls \<Rightarrow>
               Inr ((i, (case resolution s of None \<Rightarrow> ''Unknown'' | Some r \<Rightarrow> if r = [] then ''Unknown'' else r),
                     fps s, mb) # ls)))"

definition select_video_try :: "youtube \<Rightarrow> ctx \<Rightarrow> (py_error + state) \<times> ctx" where
  "select_video_try yt c =
     (case yt_streams yt of
        Inl e \<Rightarrow> (Inl e, c)
      | Inr all_streams \<Rightarrow>
          (let strs = catalog all_streams
           in if strs = [] then (Inr URL, reply_text NoMp4Streams c)
              else
                (let c1 = c\<lparr>streams := Some strs\<rparr>
                 in case listing 1 strs of
                      Inl e \<Rightarrow> (Inl e, c1)
                    | Inr ls \<Rightarrow> (Inr RESOLUTION, reply_text (AvailableResolutions ls) c1))))"

definition select_video :: "ctx \<Rightarrow> state \<times> ctx" where
  "select_video c =
     (case video c of
        None \<Rightarrow> (URL, reply_text NoVideoSelected c)
      | Some yt \<Rightarrow>
          (case select_video_try yt c of
             (Inr st, c1) \<Rightarrow> (st, c1)
           | (Inl e, c1) \<Rightarrow> (URL, reply_text (ErrorFetchingStreams e) c1)))"

text \<open>Line 75: \<open>command.split('_')[-1] if '_' in command else None\<close>.\<close>

definition parse_resolution :: "string \<Rightarrow> string option" where
  "parse_resolution command =
     (if CHR ''_'' \<in> set command then Some (last (py_split (CHR ''_'') command)) else None)"

text \<open>The \<open>try\<close> block of \<open>download_video\<close>, lines 81 to 107.\<close>

definition download_video_try ::
  "env \<Rightarrow> string \<Rightarrow> stream list \<Rightarrow> ctx \<Rightarrow> (py_error + state) \<times> ctx" where
  "download_video_try ev res strs c =
     (case find (\<lambda>s. resolution s = Some res) strs of
        None \<Rightarrow> (Inr RESOLUTION, reply_text (NoStreamFound res) c)
      | Some s \<Rightarrow>
          (case size_mb s of
             Inl e \<Rightarrow> (Inl e, c)
           | Inr mb \<Rightarrow>
               if 50 < mb then (Inr RESOLUTION, reply_text (VideoTooLarge mb) c)
               else
                 (case stream_download ev s c of
                    (Inl e, c1) \<Rightarrow> (Inl e, c1)
                  | (Inr file_path, c1) \<Rightarrow>
                      (case reply_video ev file_path (reply_text (DownloadedSending res) c1) of
                         (Inl e, c2) \<Rightarrow> (Inl e, c2)
                       | (Inr u, c2) \<Rightarrow>
                           (case os_remove file_path c2 of
                              (Inl e, c3) \<Rightarrow> (Inl e, c3)
                            | (Inr u, c3) \<Rightarrow> (Inr URL, reply_text Done c3))))))"

definition download_video :: "env \<Rightarrow> string \<Rightarrow> ctx \<Rightarrow> state \<times> ctx" where
  "download_video ev command c =
     (case video c of
        None \<Rightarrow> (URL, reply_text NoVideoOrStreams c)
      | Some yt \<Rightarrow>
          (case streams c of
             None \<Rightarrow> (URL, reply_text NoVideoOrStreams c)
           | Some strs \<Rightarrow>
               if strs = [] then (URL, reply_text NoVideoOrStreams c)
               else
                 (case parse_resolution command of
                    None \<Rightarrow> (RESOLUTION, reply_text InvalidResolutionCommand c)
                  | Some res \<Rightarrow>
                      if res = [] then (RESOLUTION, reply_text InvalidResolutionCommand c)
                      else
                        (case download_video_try ev res strs c of
                           (Inr st, c1) \<Rightarrow> (st, c1)
                         | (Inl e, c1) \<Rightarrow>
                             (RESOLUTION, reply_text (ErrorDownloadingVideo e) c1)))))"

text \<open>The \<open>try\<close> block of \<open>download_audio\<close>, lines 120 to 151.\<close>

definition download_audio_try :: "env \<Rightarrow> youtube \<Rightarrow> ctx \<Rightarrow> (py_error + state) \<times> ctx" where
  "download_audio_try ev yt c =
     (case yt_streams yt of
        Inl e \<Rightarrow> (Inl e, c)
      | Inr all_streams \<Rightarrow>
          (case first (filter_only_audio all_streams) of
             None \<Rightarrow> (Inr URL, reply_text NoAudioStream c)
           | Some s \<Rightarrow>
               (case stream_download ev s c of
                  (Inl e, c1) \<Rightarrow> (Inl e, c1)
                | (Inr file_path, c1) \<Rightarrow>
                    (let mp3_path = py_replace ''.mp4'' ''.mp3'' file_path
                     in case size_mb s of
                          Inl e \<Rightarrow> (Inl e, c1)
                        | Inr mb \<Rightarrow>
                            if 50 < mb
                            then (case os_remove file_path (reply_text (AudioTooLarge mb) c1) of
                                    (Inl e, c2) \<Rightarrow> (Inl e, c2)
                                  | (Inr u, c2) \<Rightarrow> (Inr URL, c2))
                            else
                              (case ffmpeg_run ev file_path mp3_path c1 of
                                 (Inl e, c2) \<Rightarrow> (Inl e, c2)
                               | (Inr u, c2) \<Rightarrow>
                                   (case reply_audio ev mp3_path c2 of
                                      (Inl e, c3) \<Rightarrow> (Inl e, c3)
                                    | (Inr u, c3) \<Rightarrow>
                                        (case os_remove file_path c3 of
                                           (Inl e, c4) \<Rightarrow> (Inl e, c4)
                                         | (Inr u, c4) \<Rightarrow>
                                             (case os_remove mp3_path c4 of
                                                (Inl e, c5) \<Rightarrow> (Inl e, c5)
                                              | (Inr u, c5) \<Rightarrow>
                                                  (Inr URL, reply_text Done c5)))))))))"

definition download_audio :: "env \<Rightarrow> ctx \<Rightarrow> state \<times> ctx" where
  "download_audio ev c =
     (case video c of
        None \<Rightarrow> (URL, reply_text NoVideoSelected c)
      | Some yt \<Rightarrow>
          (case download_audio_try ev yt c of
             (Inr st, c1) \<Rightarrow> (st, c1)
           | (Inl e, c1) \<Rightarrow> (URL, reply_text (ErrorProcessingAudio e) c1)))"

text \<open>\<open>cancel\<close>: \<open>context.user_data.clear()\<close> empties the dictionary.\<close>

definition cancel :: "ctx \<Rightarrow> state \<times> ctx" where
  "cancel c = (END, (reply_text OperationCancelled c)\<lparr>video := None, streams := None\<rparr>)"

subsection \<open>The conversation handler of \<open>main\<close>\<close>

text \<open>
  Lines 178 to 189 register the handlers. The library picks the handler for an update
  so: outside a conversation only the entry points are tried; inside one, the handlers
  of the current state in their order, and the fallbacks only when none of them
  accepts the update. The state the handler returns becomes the conversation's state,
  and \<open>END\<close> leaves the conversation.

  A message is its text. It is a command when it starts with \<open>/\<close> and a command
  name (letters, digits, underscores); \<open>CommandHandler(name, f)\<close> accepts the commands
  with that name, \<open>Filters.command\<close> every command, \<open>Filters.text & ~Filters.command\<close>
  every other text.
\<close>

definition command_char :: "char \<Rightarrow> bool" where
  "command_char c =
     (c \<in> set ''abcdefghijklmnopqrstuvwxyzABCDEFGHIJKLMNOPQRSTUVWXYZ0123456789_'')"

definition command_name :: "string \<Rightarrow> string option" where
  "command_name t =
     (case t of
        [] \<Rightarrow> None
      | c # cs \<Rightarrow>
          if c = CHR ''/'' \<and> takeWhile command_char cs \<noteq> []
          then Some (takeWhile command_char cs) else None)"

datatype update_filter = CommandHandler string | FiltersCommand | FiltersTextNotCommand

datatype callback =
  Start | ReceiveUrl | SelectVideo | DownloadAudio | DownloadVideo | Cancel

fun check_update :: "update_filter \<Rightarrow> string \<Rightarrow> bool" where
  "check_update (CommandHandler name) t = (command_name t = Some name)"
| "check_update FiltersCommand t = (command_name t \<noteq> None)"
| "check_update FiltersTextNotCommand t = (command_name t = None)"

definition entry_points :: "(update_filter \<times> callback) list" where
  "entry_points = [(CommandHandler ''start'', Start)]"

fun states :: "state \<Rightarrow> (update_filter \<times> callback) list" where
  "states URL = [(FiltersTextNotCommand, ReceiveUrl)]"
| "states FORMAT = [(CommandHandler ''video'', SelectVideo), (CommandHandler ''audio'', DownloadAudio)]"
| "states RESOLUTION = [(FiltersCommand, DownloadVideo)]"
| "states END = []"

definition fallbacks :: "(update_filter \<times> callback) list" where
  "fallbacks = [(CommandHandler ''cancel'', Cancel)]"

fun run_callback :: "callback \<Rightarrow> env \<Rightarrow> string \<Rightarrow> ctx \<Rightarrow> state \<times> ctx" where
  "run_callback Start ev t c = start c"
| "run_callback ReceiveUrl ev t c = receive_url ev t c"
| "run_callback SelectVideo ev t c = select_video c"
| "run_callback DownloadAudio ev t c = download_audio ev c"
| "run_callback DownloadVideo ev t c = download_video ev t c"
| "run_callback Cancel ev t c = cancel c"

definition first_match :: "(update_filter \<times> callback) list \<Rightarrow> string \<Rightarrow> callback option" where
  "first_match hs t = map_option snd (find (\<lambda>h. check_update (fst h) t) hs)"

text \<open>The conversation's state: \<open>None\<close> outside a conversation.\<close>

definition select_handler :: "state option \<Rightarrow> string \<Rightarrow> callback option" where
  "select_handler st t =
     (case st of
        None \<Rightarrow> first_match entry_points t
      | Some s \<Rightarrow>
          (case first_match (states s) t of
             Some cb \<Rightarrow> Some cb
           | None \<Rightarrow> first_match fallbacks t))"

definition handle_update :: "env \<Rightarrow> string \<Rightarrow> state option \<times> ctx \<Rightarrow> state option \<times> ctx" where
  "handle_update ev t sc =
     (case select_handler (fst sc) t of
        None \<Rightarrow> sc
      | Some cb \<Rightarrow>
          (case run_callback cb ev t (snd sc) of
             (st, c1) \<Rightarrow> (if st = END then None else Some st, c1)))"

text \<open>
  \<open>handle_update\<close> is one conversation's turn. The library keeps a conversation for
  each pair of chat and user, while \<open>context.user_data\<close> belongs to the user alone:
  the conversations a user has in different chats have each their own state and share
  one dictionary. So the sessions of one user are a state for every chat (a number),
  with one \<open>ctx\<close>; an update arrives in a chat and is handled by that chat's
  conversation.
\<close>

type_synonym conversations = "nat \<rightharpoonup> state"

definition process_update ::
  "env \<Rightarrow> nat \<Rightarrow> string \<Rightarrow> conversations \<times> ctx \<Rightarrow> conversations \<times> ctx" where
  "process_update ev chat t cs =
     (case handle_update ev t (fst cs chat, snd cs) of
        (st, c1) \<Rightarrow> ((fst cs)(chat := st), c1))"

text \<open>A fresh process: no conversation, an empty dictionary, an empty scratch directory.\<close>

definition initial :: "conversations \<times> ctx" where
  "initial = (Map.empty, \<lparr>video = None, streams = None, files = {}, outbox = []\<rparr>)"

inductive reachable :: "conversations \<times> ctx \<Rightarrow> bool" where
  reach_initial: "reachable initial"
| reach_step: "reachable cs \<Longrightarrow> reachable (process_update ev chat t cs)"

subsection \<open>Example inputs\<close>

text \<open>
  The data of the spec's scenarios: a video with a 1080p stream of 60 MB and a 720p
  stream of 30 MB, both progressive MP4 at 30 fps, and an audio-only stream of 40 MB.
  The audio comes in an MP4 container and, for the same video, in a WebM container.
\<close>

definition stream_1080p :: stream where
  "stream_1080p = \<lparr>itag = 37, mtype = Video, subtype = ''mp4'', is_progressive = True,
     resolution = Some ''1080p'', fps = 30, filesize = 62914560\<rparr>"

definition stream_720p :: stream where
  "stream_720p = \<lparr>itag = 22, mtype = Video, subtype = ''mp4'', is_progressive = True,
     resolution = Some ''720p'', fps = 30, filesize = 31457280\<rparr>"

definition stream_720p_60fps :: stream where
  "stream_720p_60fps = \<lparr>itag = 298, mtype = Video, subtype = ''mp4'', is_progressive = True,
     resolution = Some ''720p'', fps = 60, filesize = 41943040\<rparr>"

definition stream_audio_mp4 :: stream where
  "stream_audio_mp4 = \<lparr>itag = 140, mtype = Audio, subtype = ''mp4'', is_progressive = False,
     resolution = None, fps = 0, filesize = 41943040\<rparr>"

definition stream_audio_webm :: stream where
  "stream_audio_webm = \<lparr>itag = 251, mtype = Audio, subtype = ''webm'', is_progressive = False,
     resolution = None, fps = 0, filesize = 41943040\<rparr>"

definition stream_audio_large :: stream where
  "stream_audio_large = \<lparr>itag = 141, mtype = Audio, subtype = ''mp4'', is_progressive = False,
     resolution = None, fps = 0, filesize = 62914560\<rparr>"

definition yt_ref_A :: youtube where
  "yt_ref_A = \<lparr>yt_title = Inr ''ref-A'',
     yt_streams = Inr [stream_1080p, stream_720p, stream_audio_mp4]\<rparr>"

definition yt_webm :: youtube where
  "yt_webm = \<lparr>yt_title = Inr ''ref-B'', yt_streams = Inr [stream_720p, stream_audio_webm]\<rparr>"

definition yt_large_audio :: youtube where
  "yt_large_audio = \<lparr>yt_title = Inr ''ref-C'', yt_streams = Inr [stream_720p, stream_audio_large]\<rparr>"

text \<open>An outside where everything works, and three where one step fails.\<close>

definition env_ok :: env where
  "env_ok = \<lparr>youtube_result = Inr yt_ref_A, download_result = Inr ''downloads/ref-A.mp4'',
     ffmpeg_result = None, send_result = None\<rparr>"

definition env_download_fails :: env where
  "env_download_fails = env_ok\<lparr>download_result := Inl NetworkError\<rparr>"

definition env_ffmpeg_fails :: env where
  "env_ffmpeg_fails = env_ok\<lparr>ffmpeg_result := Some FfmpegError\<rparr>"

definition env_send_fails :: env where
  "env_send_fails = env_ok\<lparr>send_result := Some TelegramError\<rparr>"

text \<open>The session after \<open>/start\<close>, the reference and \<open>/video\<close>, on an empty disk.\<close>

definition ctx_format :: ctx where
  "ctx_format = \<lparr>video = Some yt_ref_A, streams = None, files = {},
     outbox = [Reply Welcome, Reply (GotIt ''ref-A'')]\<rparr>"

definition ctx_resolution :: ctx where
  "ctx_resolution = \<lparr>video = Some yt_ref_A, streams = Some [stream_1080p, stream_720p],
     files = {},
     outbox = [Reply Welcome, Reply (GotIt ''ref-A''),
       Reply (AvailableResolutions [(1, ''1080p'', 30, 60), (2, ''720p'', 30, 30)])]\<rparr>"

section \<open>Properties\<close>

subsection \<open>The float of a size in MB\<close>

text \<open>
  Dividing by \<open>1024 * 1024\<close> is exact for every size below \<open>2 ^ 53\<close> bytes: the
  quotient has at most 53 significant bits. A larger size gives a float of at least
  \<open>2 ^ 33\<close>, or overflows.
\<close>

lemma quotient_of_pos:
  assumes "0 < q" "quotient_of q = (n, d)"
  shows "0 < n" "0 < d" "q = of_int n / of_int d"
proof -
  show d: "0 < d" using assms(2) by (rule quotient_of_denom_pos)
  show q: "q = of_int n / of_int d" using assms(2) by (rule quotient_of_div)
  from assms(1) q d show "0 < n"
    by (simp add: zero_less_divide_iff)
qed

lemma bitlen_powi_bounds:
  assumes "0 < (n::int)"
  shows "(2::rat) powi (bitlen n - 1) \<le> of_int n" "of_int n < (2::rat) powi bitlen n"
proof -
  from assms have b1: "1 \<le> bitlen n"
    using bitlen_eq_zero_iff [of n] bitlen_nonneg [of n] by linarith
  from bitlen_bounds [OF assms]
  have lo: "2 ^ nat (bitlen n - 1) \<le> n" and hi: "n < 2 ^ nat (bitlen n)" by simp_all
  have "(2::rat) powi (bitlen n - 1) = of_int (2 ^ nat (bitlen n - 1))"
    using b1 by (simp add: power_int_nonneg_exp)
  also have "\<dots> \<le> of_int n" using lo by (simp only: of_int_le_iff)
  finally show "(2::rat) powi (bitlen n - 1) \<le> of_int n" .
  have "(of_int n :: rat) < of_int (2 ^ nat (bitlen n))" using hi by (simp only: of_int_less_iff)
  also have "\<dots> = 2 powi bitlen n" using b1 by (simp add: power_int_nonneg_exp)
  finally show "of_int n < (2::rat) powi bitlen n" .
qed

lemma ilog2_bounds:
  assumes "0 < q"
  shows "2 powi (ilog2 q) \<le> q" "q < 2 powi (ilog2 q + 1)"
proof -
  obtain n d where nd: "quotient_of q = (n, d)" by force
  note p = quotient_of_pos [OF assms nd]
  define k where "k = bitlen n - bitlen d"
  have il: "ilog2 q = (if 2 powi k \<le> q then k else k - 1)"
    by (simp add: ilog2_def nd k_def Let_def)
  have dpos: "(0::rat) < of_int d" using p(2) by simp
  have up: "q < 2 powi (k + 1)"
  proof -
    have "q * of_int d = of_int n" using p(3) dpos by simp
    also have "\<dots> < 2 powi bitlen n" by (rule bitlen_powi_bounds(2) [OF p(1)])
    also have "\<dots> = 2 powi (k + 1) * 2 powi (bitlen d - 1)"
      by (simp add: k_def flip: power_int_add)
    also have "\<dots> \<le> 2 powi (k + 1) * of_int d"
      by (rule mult_left_mono [OF bitlen_powi_bounds(1) [OF p(2)]]) simp
    finally show ?thesis using dpos by simp
  qed
  have lo: "2 powi (k - 1) < q"
  proof -
    have "2 powi (k - 1) * of_int d < 2 powi (k - 1) * (2::rat) powi bitlen d"
      by (rule mult_strict_left_mono [OF bitlen_powi_bounds(2) [OF p(2)]]) simp
    also have "\<dots> = 2 powi (bitlen n - 1)"
      by (simp add: k_def flip: power_int_add)
    also have "\<dots> \<le> of_int n" by (rule bitlen_powi_bounds(1) [OF p(1)])
    also have "\<dots> = q * of_int d" using p(3) dpos by simp
    finally show ?thesis using dpos by simp
  qed
  show "2 powi (ilog2 q) \<le> q" using il lo by (auto simp: less_imp_le)
  show "q < 2 powi (ilog2 q + 1)" using il up by (auto simp: not_le)
qed

lemma round_half_even_of_int: "round_half_even (of_int m) = m"
  by (simp add: round_half_even_def)

lemma round_half_even_ge: "x - 1 / 2 \<le> of_int (round_half_even x)"
proof -
  have "of_int \<lfloor>x\<rfloor> \<le> x" "x < of_int \<lfloor>x\<rfloor> + 1" by linarith+
  then show ?thesis by (auto simp: round_half_even_def Let_def)
qed

lemma powi_lt_imp_lt: "(2::rat) powi a < 2 powi b \<Longrightarrow> a < b"
proof (rule ccontr)
  assume lt: "(2::rat) powi a < 2 powi b" and "\<not> a < b"
  then have "b \<le> a" by simp
  then have "(2::rat) powi b \<le> 2 powi a" by (rule power_int_increasing) simp
  with lt show False by simp
qed

lemma float_round_exact:
  assumes "0 < a" "a < 2 ^ 53"
  shows "float_round (of_int a / 2 ^ 20) = Inr (of_int a / 2 ^ 20)"
proof -
  define q :: rat where "q = of_int a / 2 ^ 20"
  have qpos: "0 < q" using assms(1) by (simp add: q_def)
  have "of_int a < (of_int (2 ^ 53) :: rat)" using assms(2) by (simp only: of_int_less_iff)
  then have qlt: "q < 2 powi 33" by (simp add: q_def)
  have "2 powi ilog2 q < (2::rat) powi 33"
    using ilog2_bounds(1) [OF qpos] qlt by (rule le_less_trans)
  then have k: "ilog2 q < 33" by (rule powi_lt_imp_lt)
  define e where "e = max (ilog2 q - 52) (- 1074)"
  have e: "e \<le> - 20" using k by (simp add: e_def)
  have "q / 2 powi e = of_int a * 2 powi (- 20 - e)"
    by (simp add: q_def power_int_diff power_int_minus field_simps)
  also have "\<dots> = of_int (a * 2 ^ nat (- 20 - e))"
    using e by (simp add: power_int_nonneg_exp)
  finally have s: "q / 2 powi e = of_int (a * 2 ^ nat (- 20 - e))" .
  have r: "of_int (round_half_even (q / 2 powi e)) * 2 powi e = q"
    unfolding s round_half_even_of_int unfolding s [symmetric] by simp
  have "q < 2 ^ 1024"
    using qlt by simp
  then show ?thesis
    using qpos r unfolding q_def [symmetric]
    by (simp add: float_round_def Let_def e_def [symmetric] abs_of_pos)
qed

lemma float_round_large:
  assumes "2 ^ 33 \<le> q"
  shows "float_round q = Inl OverflowError \<or> (\<exists>r. float_round q = Inr r \<and> 2 ^ 33 \<le> r)"
proof -
  have qpos: "0 < q" using assms by (rule less_le_trans [rotated]) simp
  define k where "k = ilog2 q"
  have "(2::rat) powi 33 < 2 powi (k + 1)"
    using assms ilog2_bounds(2) [OF qpos] by (simp add: k_def)
  then have "33 < k + 1" by (rule powi_lt_imp_lt)
  then have k: "33 \<le> k" by simp
  define e where "e = max (k - 52) (- 1074)"
  have e: "e = k - 52" using k by (simp add: e_def)
  define m where "m = round_half_even (q / 2 powi e)"
  have "(2::rat) ^ 52 = 2 powi k / 2 powi e"
    by (simp add: e power_int_diff)
  also have "\<dots> \<le> q / 2 powi e"
    using ilog2_bounds(1) [OF qpos] by (simp add: k_def divide_right_mono)
  finally have "(2::rat) ^ 52 - 1 / 2 \<le> of_int m"
    using round_half_even_ge [of "q / 2 powi e"] by (simp add: m_def)
  then have "(of_int (2 ^ 52 - 1) :: rat) < of_int m" by simp
  then have "2 ^ 52 - 1 < m" by (simp only: of_int_less_iff)
  then have "2 ^ 52 \<le> m" by simp
  then have "(of_int (2 ^ 52) :: rat) \<le> of_int m" by (simp only: of_int_le_iff)
  then have m52: "(2::rat) ^ 52 \<le> of_int m" by simp
  have "(2::rat) powi 33 \<le> 2 powi k"
    using k by (rule power_int_increasing) simp
  also have "\<dots> = (2::rat) ^ 52 * 2 powi e"
    by (simp add: e power_int_diff)
  also have "\<dots> \<le> of_int m * 2 powi e"
    using m52 by (rule mult_right_mono) simp
  finally have r: "2 ^ 33 \<le> of_int m * (2::rat) powi e" by simp
  show ?thesis
    using qpos r
    by (simp add: float_round_def Let_def k_def [symmetric] e_def [symmetric] m_def [symmetric]
        abs_of_pos)
qed

lemma truediv_mb_small:
  assumes "0 \<le> a" "a < 2 ^ 53"
  shows "truediv a (1024 * 1024) = Inr (of_int a / 1048576)"
proof (cases "a = 0")
  case True
  then show ?thesis by (simp add: truediv_def float_round_def)
next
  case False
  with assms(1) have "0 < a" by simp
  from float_round_exact [OF this assms(2)] show ?thesis
    by (simp add: truediv_def)
qed

lemma truediv_mb_large:
  assumes "2 ^ 53 \<le> a"
  shows "truediv a (1024 * 1024) = Inl OverflowError
         \<or> (\<exists>r. truediv a (1024 * 1024) = Inr r \<and> 50 < r)"
proof -
  have "(of_int (2 ^ 53) :: rat) \<le> of_int a" using assms by (simp only: of_int_le_iff)
  then have "(2::rat) ^ 33 \<le> of_int a / 2 ^ 20" by simp
  from float_round_large [OF this] show ?thesis
    by (auto simp: truediv_def)
qed

lemma size_mb_small:
  assumes "filesize s < 2 ^ 53"
  shows "size_mb s = Inr (of_nat (filesize s) / 1048576)"
proof -
  have "int (filesize s) < int (2 ^ 53)" using assms by (simp only: of_nat_less_iff)
  then have "int (filesize s) < 2 ^ 53" by simp
  then show ?thesis
    using truediv_mb_small [of "int (filesize s)"] by (simp add: size_mb_def)
qed

lemma size_mb_gate:
  "(\<exists>mb. size_mb s = Inr mb \<and> \<not> 50 < mb) \<longleftrightarrow> filesize s \<le> 50 * 1024 * 1024"
proof (cases "filesize s < 2 ^ 53")
  case True
  define q :: rat where "q = of_nat (filesize s) / 1048576"
  have eq: "size_mb s = Inr q" unfolding q_def by (rule size_mb_small [OF True])
  have "(of_nat (filesize s) :: rat) \<le> of_nat 52428800 \<longleftrightarrow> filesize s \<le> 52428800"
    by (simp only: of_nat_le_iff)
  then have "\<not> 50 < q \<longleftrightarrow> filesize s \<le> 52428800"
    by (simp add: q_def not_less)
  moreover have "(\<exists>mb. size_mb s = Inr mb \<and> \<not> 50 < mb) \<longleftrightarrow> \<not> 50 < q"
    unfolding eq by auto
  ultimately show ?thesis by simp
next
  case False
  then have "int (2 ^ 53) \<le> int (filesize s)" by (simp only: of_nat_le_iff not_less)
  then have "2 ^ 53 \<le> int (filesize s)" by simp
  from truediv_mb_large [OF this] False show ?thesis
    by (auto simp: size_mb_def)
qed

subsection \<open>What a handler returns\<close>

text \<open>
  Each handler returns \<open>FORMAT\<close> only with the \<open>'video'\<close> key set, and \<open>RESOLUTION\<close>
  only with both keys set and a catalog that is not empty.
\<close>

lemmas effect_defs =
  emit_def reply_text_def stream_download_def os_remove_def reply_video_def reply_audio_def
  ffmpeg_run_def

lemma start_state: "fst (start c) = URL"
  by (simp add: start_def)

lemma receive_url_state:
  "fst (receive_url ev t c) = URL
   \<or> fst (receive_url ev t c) = FORMAT \<and> video (snd (receive_url ev t c)) \<noteq> None"
  by (simp add: receive_url_def effect_defs Let_def split: sum.splits)

lemma select_video_try_state:
  assumes "select_video_try yt c = (Inr st, c1)"
  shows "st = URL \<or> st = RESOLUTION \<and> video c1 = video c
           \<and> (\<exists>strs. streams c1 = Some strs \<and> strs \<noteq> [])"
  using assms
  by (auto simp: select_video_try_def effect_defs Let_def split: sum.splits if_splits)

lemma select_video_state:
  "fst (select_video c) = URL
   \<or> fst (select_video c) = RESOLUTION \<and> video (snd (select_video c)) \<noteq> None
      \<and> (\<exists>strs. streams (snd (select_video c)) = Some strs \<and> strs \<noteq> [])"
proof (cases "video c")
  case None
  then show ?thesis by (simp add: select_video_def)
next
  case (Some yt)
  obtain r c1 where t: "select_video_try yt c = (r, c1)" by force
  show ?thesis
  proof (cases r)
    case (Inl e)
    with Some t show ?thesis by (simp add: select_video_def)
  next
    case (Inr st)
    with select_video_try_state [of yt c st c1] Some t show ?thesis
      by (auto simp: select_video_def)
  qed
qed

lemma download_audio_try_state:
  "download_audio_try ev yt c = (Inr st, c1) \<Longrightarrow> st = URL"
  by (auto simp: download_audio_try_def Let_def split: sum.splits option.splits prod.splits if_splits)

lemma download_audio_state: "fst (download_audio ev c) = URL"
proof (cases "video c")
  case None
  then show ?thesis by (simp add: download_audio_def)
next
  case (Some yt)
  obtain r c1 where t: "download_audio_try ev yt c = (r, c1)" by force
  with Some download_audio_try_state [of ev yt c _ c1] show ?thesis
    by (cases r) (auto simp: download_audio_def)
qed

lemma download_video_try_data:
  "download_video_try ev res strs c = (r, c1) \<Longrightarrow> video c1 = video c \<and> streams c1 = streams c"
  by (auto simp: download_video_try_def effect_defs Let_def
      split: sum.splits option.splits prod.splits if_splits)

lemma download_video_try_state:
  "download_video_try ev res strs c = (Inr st, c1) \<Longrightarrow> st = URL \<or> st = RESOLUTION"
  by (auto simp: download_video_try_def Let_def
      split: sum.splits option.splits prod.splits if_splits)

lemma download_video_state:
  "fst (download_video ev t c) = URL
   \<or> fst (download_video ev t c) = RESOLUTION \<and> video (snd (download_video ev t c)) \<noteq> None
      \<and> (\<exists>strs. streams (snd (download_video ev t c)) = Some strs \<and> strs \<noteq> [])"
proof (cases "\<exists>yt strs res. video c = Some yt \<and> streams c = Some strs \<and> strs \<noteq> []
    \<and> parse_resolution t = Some res \<and> res \<noteq> []")
  case False
  then show ?thesis
    by (auto simp: download_video_def effect_defs split: option.splits)
next
  case True
  then obtain yt strs res where h: "video c = Some yt" "streams c = Some strs" "strs \<noteq> []"
    "parse_resolution t = Some res" "res \<noteq> []" by blast
  obtain r c1 where t: "download_video_try ev res strs c = (r, c1)" by force
  from download_video_try_data [OF t] h have d: "video c1 = Some yt" "streams c1 = Some strs"
    by simp_all
  show ?thesis
  proof (cases r)
    case (Inl e)
    with h t d show ?thesis by (simp add: download_video_def effect_defs)
  next
    case (Inr st)
    with download_video_try_state [of ev res strs c st c1] h t d show ?thesis
      by (auto simp: download_video_def)
  qed
qed

lemma cancel_state: "fst (cancel c) = END"
  by (simp add: cancel_def)

lemma run_callback_inv:
  assumes "run_callback cb ev t c = (st, c1)"
  shows "(st = FORMAT \<longrightarrow> video c1 \<noteq> None)
         \<and> (st = RESOLUTION \<longrightarrow> video c1 \<noteq> None \<and> (\<exists>strs. streams c1 = Some strs \<and> strs \<noteq> []))"
proof (cases cb)
  case Start
  with assms start_state [of c] show ?thesis by auto
next
  case ReceiveUrl
  with assms receive_url_state [of ev t c] show ?thesis by auto
next
  case SelectVideo
  with assms select_video_state [of c] show ?thesis by auto
next
  case DownloadAudio
  with assms download_audio_state [of ev c] show ?thesis by auto
next
  case DownloadVideo
  with assms download_video_state [of ev t c] show ?thesis by auto
next
  case Cancel
  with assms cancel_state [of c] show ?thesis by auto
qed

text \<open>No handler but \<open>cancel\<close> unsets a key of \<open>user_data\<close>.\<close>

lemma emit_data: "video (emit e c) = video c" "streams (emit e c) = streams c"
  by (simp_all add: emit_def)

lemma reply_text_data: "video (reply_text r c) = video c" "streams (reply_text r c) = streams c"
  by (simp_all add: reply_text_def emit_data)

lemma stream_download_data:
  "stream_download ev s c = (r, c1) \<Longrightarrow> video c1 = video c \<and> streams c1 = streams c"
  by (auto simp: stream_download_def emit_def Let_def split: sum.splits)

lemma os_remove_data:
  "os_remove p c = (r, c1) \<Longrightarrow> video c1 = video c \<and> streams c1 = streams c"
  by (auto simp: os_remove_def emit_def split: if_splits)

lemma reply_audio_data:
  "reply_audio ev p c = (r, c1) \<Longrightarrow> video c1 = video c \<and> streams c1 = streams c"
  by (auto simp: reply_audio_def emit_def split: if_splits option.splits)

lemma ffmpeg_run_data:
  "ffmpeg_run ev a b c = (r, c1) \<Longrightarrow> video c1 = video c \<and> streams c1 = streams c"
  by (auto simp: ffmpeg_run_def emit_def split: option.splits)

lemma download_audio_try_data:
  assumes "download_audio_try ev yt c = (r, c1)"
  shows "video c1 = video c \<and> streams c1 = streams c"
proof (cases "yt_streams yt")
  case (Inl e)
  with assms show ?thesis by (simp add: download_audio_try_def)
next
  case (Inr all_streams)
  show ?thesis
  proof (cases "first (filter_only_audio all_streams)")
    case None
    with Inr assms show ?thesis by (auto simp: download_audio_try_def reply_text_data)
  next
    case (Some s)
    obtain r1 c2 where d: "stream_download ev s c = (r1, c2)" by force
    note d2 = stream_download_data [OF d]
    show ?thesis
    proof (cases r1)
      case (Inl e)
      with Inr Some d d2 assms show ?thesis by (auto simp: download_audio_try_def)
    next
      case p: (Inr file_path)
      show ?thesis
      proof (cases "size_mb s")
        case (Inl e)
        with Inr Some d d2 p assms show ?thesis by (auto simp: download_audio_try_def Let_def)
      next
        case mb: (Inr mb)
        show ?thesis
        proof (cases "50 < mb")
          case True
          obtain r2 c3 where o: "os_remove file_path (reply_text (AudioTooLarge mb) c2) = (r2, c3)"
            by force
          from os_remove_data [OF o] Inr Some d d2 p mb True o assms show ?thesis
            by (cases r2) (auto simp: download_audio_try_def Let_def reply_text_data)
        next
          case False
          define q where "q = py_replace ''.mp4'' ''.mp3'' file_path"
          obtain r2 c3 where f: "ffmpeg_run ev file_path q c2 = (r2, c3)" by force
          obtain r3 c4 where a: "reply_audio ev q c3 = (r3, c4)" by force
          obtain r4 c5 where o1: "os_remove file_path c4 = (r4, c5)" by force
          obtain r5 c6 where o2: "os_remove q c5 = (r5, c6)" by force
          from ffmpeg_run_data [OF f] reply_audio_data [OF a] os_remove_data [OF o1]
            os_remove_data [OF o2] Inr Some d d2 p mb False f a o1 o2 assms
          show ?thesis
            by (cases r2; cases r3; cases r4; cases r5)
              (auto simp: download_audio_try_def Let_def reply_text_data q_def [symmetric]
                simp del: py_replace.simps)
        qed
      qed
    qed
  qed
qed

lemma select_video_try_data:
  "select_video_try yt c = (r, c1) \<Longrightarrow>
     video c1 = video c
     \<and> (streams c1 = streams c \<or> (\<exists>strs. streams c1 = Some strs \<and> strs \<noteq> []))"
  by (auto simp: select_video_try_def effect_defs Let_def split: sum.splits if_splits)

lemma run_callback_frame:
  assumes "cb \<noteq> Cancel" "run_callback cb ev t c = (st, c1)"
  shows "(video c \<noteq> None \<longrightarrow> video c1 \<noteq> None)
         \<and> ((\<exists>strs. streams c = Some strs \<and> strs \<noteq> [])
              \<longrightarrow> (\<exists>strs. streams c1 = Some strs \<and> strs \<noteq> []))"
proof (cases cb)
  case Start
  with assms show ?thesis by (auto simp: start_def effect_defs)
next
  case ReceiveUrl
  with assms show ?thesis
    by (auto simp: receive_url_def effect_defs Let_def split: sum.splits)
next
  case SelectVideo
  show ?thesis
  proof (cases "video c")
    case None
    with SelectVideo assms show ?thesis by (auto simp: select_video_def effect_defs)
  next
    case (Some yt)
    obtain r c2 where t: "select_video_try yt c = (r, c2)" by force
    from select_video_try_data [OF t] SelectVideo assms Some t show ?thesis
      by (cases r) (auto simp: select_video_def effect_defs)
  qed
next
  case DownloadAudio
  show ?thesis
  proof (cases "video c")
    case None
    with DownloadAudio assms show ?thesis by (auto simp: download_audio_def effect_defs)
  next
    case (Some yt)
    obtain r c2 where t: "download_audio_try ev yt c = (r, c2)" by force
    from download_audio_try_data [OF t] DownloadAudio assms Some t show ?thesis
      by (cases r) (auto simp: download_audio_def effect_defs)
  qed
next
  case DownloadVideo
  show ?thesis
  proof (cases "\<exists>yt strs res. video c = Some yt \<and> streams c = Some strs \<and> strs \<noteq> []
      \<and> parse_resolution t = Some res \<and> res \<noteq> []")
    case False
    with DownloadVideo assms show ?thesis
      by (auto simp: download_video_def effect_defs split: option.splits if_splits)
  next
    case True
    then obtain yt strs res where h: "video c = Some yt" "streams c = Some strs" "strs \<noteq> []"
      "parse_resolution t = Some res" "res \<noteq> []" by blast
    obtain r c2 where t: "download_video_try ev res strs c = (r, c2)" by force
    from download_video_try_data [OF t] DownloadVideo assms h t show ?thesis
      by (cases r) (auto simp: download_video_def effect_defs)
  qed
next
  case Cancel
  with assms show ?thesis by simp
qed

text \<open>
  The conversations of one user: an update changes the state of its own chat only, and
  the shared dictionary as its handler does.
\<close>

lemma process_update_ignored:
  "select_handler (convs k) t = None \<Longrightarrow> process_update ev k t (convs, c) = (convs, c)"
  by (simp add: process_update_def handle_update_def)

lemma process_update_handled:
  "select_handler (convs k) t = Some cb \<Longrightarrow> run_callback cb ev t c = (st, c1) \<Longrightarrow>
     process_update ev k t (convs, c) = (convs(k := if st = END then None else Some st), c1)"
  by (simp add: process_update_def handle_update_def)

lemma process_update_inv:
  assumes inv: "\<forall>j. (convs j = Some FORMAT \<longrightarrow> video c \<noteq> None)
      \<and> (convs j = Some RESOLUTION \<longrightarrow>
           video c \<noteq> None \<and> (\<exists>strs. streams c = Some strs \<and> strs \<noteq> []))"
    and side: "select_handler (convs k) t = Some Cancel \<longrightarrow>
      (\<forall>j. j \<noteq> k \<longrightarrow> convs j \<noteq> Some FORMAT \<and> convs j \<noteq> Some RESOLUTION)"
  shows "\<forall>j. (fst (process_update ev k t (convs, c)) j = Some FORMAT \<longrightarrow>
            video (snd (process_update ev k t (convs, c))) \<noteq> None)
      \<and> (fst (process_update ev k t (convs, c)) j = Some RESOLUTION \<longrightarrow>
           video (snd (process_update ev k t (convs, c))) \<noteq> None
           \<and> (\<exists>strs. streams (snd (process_update ev k t (convs, c))) = Some strs \<and> strs \<noteq> []))"
proof (cases "select_handler (convs k) t")
  case None
  with inv show ?thesis by (simp add: process_update_ignored)
next
  case (Some cb)
  obtain st c1 where r: "run_callback cb ev t c = (st, c1)" by force
  note p = process_update_handled [where convs = convs and k = k, OF Some r]
  note post = run_callback_inv [OF r]
  show ?thesis
  proof (cases "cb = Cancel")
    case True
    with Some side have "\<forall>j. j \<noteq> k \<longrightarrow> convs j \<noteq> Some FORMAT \<and> convs j \<noteq> Some RESOLUTION"
      by simp
    with post show ?thesis unfolding p by auto
  next
    case False
    from run_callback_frame [OF False r] inv post show ?thesis unfolding p by auto
  qed
qed

lemma process_update_post:
  assumes "select_handler (convs k) t \<noteq> None"
  shows "(fst (process_update ev k t (convs, c)) k = Some FORMAT \<longrightarrow>
            video (snd (process_update ev k t (convs, c))) \<noteq> None)
      \<and> (fst (process_update ev k t (convs, c)) k = Some RESOLUTION \<longrightarrow>
           video (snd (process_update ev k t (convs, c))) \<noteq> None
           \<and> (\<exists>strs. streams (snd (process_update ev k t (convs, c))) = Some strs \<and> strs \<noteq> []))"
proof -
  from assms obtain cb where s: "select_handler (convs k) t = Some cb" by auto
  obtain st c1 where r: "run_callback cb ev t c = (st, c1)" by force
  from run_callback_inv [OF r] show ?thesis
    unfolding process_update_handled [where convs = convs and k = k, OF s r] by auto
qed

subsection \<open>The example session\<close>

lemmas example_defs =
  stream_1080p_def stream_720p_def stream_720p_60fps_def stream_audio_mp4_def
  stream_audio_webm_def stream_audio_large_def yt_ref_A_def yt_webm_def yt_large_audio_def
  env_ok_def env_download_fails_def env_ffmpeg_fails_def env_send_fails_def
  ctx_format_def ctx_resolution_def

lemmas dispatch_defs =
  handle_update_def select_handler_def first_match_def entry_points_def fallbacks_def
  command_name_def command_char_def

lemma size_mb_examples:
  "size_mb stream_1080p = Inr 60" "size_mb stream_720p = Inr 30"
  "size_mb stream_720p_60fps = Inr 40" "size_mb stream_audio_mp4 = Inr 40"
  "size_mb stream_audio_webm = Inr 40" "size_mb stream_audio_large = Inr 60"
  using size_mb_small [of stream_1080p] size_mb_small [of stream_720p]
    size_mb_small [of stream_720p_60fps] size_mb_small [of stream_audio_mp4]
    size_mb_small [of stream_audio_webm] size_mb_small [of stream_audio_large]
  by (simp_all add: example_defs)

lemma resolution_key_examples:
  "resolution_key stream_1080p = 1080" "resolution_key stream_720p = 720"
  "resolution_key stream_720p_60fps = 720"
  by (simp_all add: resolution_key_def resolution_str_def is_digit_def int_of_digits_def example_defs)

lemma catalog_ref_A: "catalog [stream_1080p, stream_720p, stream_audio_mp4] = [stream_1080p, stream_720p]"
  by (simp add: catalog_def desc_def order_by_resolution_def filter_progressive_mp4_def Let_def
      resolution_key_examples)
    (simp add: example_defs is_digit_def resolution_str_def)

lemma run_to_format:
  "handle_update env_ok ''ref-A'' (handle_update env_ok ''/start'' (None, snd initial))
     = (Some FORMAT, ctx_format)"
  by (simp add: dispatch_defs initial_def start_def receive_url_def effect_defs
      env_ok_def yt_ref_A_def ctx_format_def)

lemma run_to_resolution:
  "handle_update env_ok ''/video'' (Some FORMAT, ctx_format) = (Some RESOLUTION, ctx_resolution)"
  by (simp add: dispatch_defs select_video_def select_video_try_def Let_def effect_defs
      ctx_format_def ctx_resolution_def yt_ref_A_def catalog_ref_A size_mb_examples)
    (simp add: example_defs)

lemma run_to_resolution_chat:
  "process_update env_ok 0 ''/video''
     (process_update env_ok 0 ''ref-A'' (process_update env_ok 0 ''/start'' initial))
   = ([0 \<mapsto> RESOLUTION], ctx_resolution)"
proof -
  have "process_update env_ok 0 ''/start'' initial
      = ([0 \<mapsto> URL], snd (handle_update env_ok ''/start'' (None, snd initial)))"
    by (simp add: process_update_def initial_def dispatch_defs start_def)
  moreover have "handle_update env_ok ''/start'' (None, snd initial)
      = (Some URL, snd (handle_update env_ok ''/start'' (None, snd initial)))"
    by (simp add: initial_def dispatch_defs start_def)
  ultimately have "process_update env_ok 0 ''ref-A'' (process_update env_ok 0 ''/start'' initial)
      = ([0 \<mapsto> FORMAT], ctx_format)"
    using run_to_format by (simp add: process_update_def)
  then show ?thesis
    by (simp add: process_update_def run_to_resolution)
qed

lemma reachable_ctx_resolution:
  "reachable ([0 \<mapsto> RESOLUTION], ctx_resolution)"
proof -
  have "reachable (process_update env_ok 0 ''/video''
     (process_update env_ok 0 ''ref-A'' (process_update env_ok 0 ''/start'' initial)))"
    by (intro reach_step reach_initial)
  then show ?thesis by (simp only: run_to_resolution_chat)
qed

lemma resolution_examples:
  "resolution stream_1080p = Some ''1080p''" "resolution stream_720p = Some ''720p''"
  "resolution stream_720p_60fps = Some ''720p''"
  by (simp_all add: example_defs)

lemma parse_res_720p: "parse_resolution ''/res_720p'' = Some ''720p''"
  by (simp add: parse_resolution_def)

lemma first_audio_examples:
  "first (filter_only_audio [stream_1080p, stream_720p, stream_audio_mp4]) = Some stream_audio_mp4"
  "first (filter_only_audio [stream_720p, stream_audio_webm]) = Some stream_audio_webm"
  "first (filter_only_audio [stream_720p, stream_audio_large]) = Some stream_audio_large"
  by (simp_all add: first_def filter_only_audio_def includes_audio_track_def
      includes_video_track_def example_defs)

subsection \<open>Cleanup of scratch files\<close>

text \<open>
  Claim C1. After every outcome of a pipeline (success, any failure, cancellation) no
  scratch file of the session is left on disk: the delivered file is removed whether
  the send succeeds or fails, and every intermediate file is removed before the
  handler returns.

  The handlers remove their files on the success path and, in \<open>download_audio\<close>, when
  the size gate rejects; the \<open>except\<close> branches only reply. So the claim fails on the
  code: in the example session the 720p stream is downloaded, the send raises, and the
  handler returns with the downloaded file still on disk.
\<close>

theorem download_video_send_failure_leaves_file:
  "download_video env_send_fails ''/res_720p'' ctx_resolution =
     (RESOLUTION,
      ctx_resolution\<lparr>files := {''downloads/ref-A.mp4''},
        outbox := outbox ctx_resolution @
          [FetchStarted stream_720p, Reply (DownloadedSending ''720p''),
           Reply (ErrorDownloadingVideo TelegramError)]\<rparr>)"
  by (simp add: download_video_def download_video_try_def parse_res_720p resolution_examples
      size_mb_examples effect_defs ctx_resolution_def env_send_fails_def env_ok_def)

text \<open>
  Claim C5. When the transcode fails after the raw audio file was fetched, the raw file
  is removed before the failure is reported, so no raw audio file is left on disk.

  The code has no removal on that path: \<open>ffmpeg\<close> raises, the \<open>except\<close> branch replies
  and returns, and the raw file stays. The size-gate branch just above does remove it.
\<close>

theorem download_audio_transcode_failure_leaves_raw_file:
  "download_audio env_ffmpeg_fails ctx_format =
     (URL,
      ctx_format\<lparr>files := {''downloads/ref-A.mp4''},
        outbox := outbox ctx_format @
          [FetchStarted stream_audio_mp4, Reply (ErrorProcessingAudio FfmpegError)]\<rparr>)"
  by (simp add: download_audio_def download_audio_try_def first_audio_examples
      size_mb_examples effect_defs ctx_format_def env_ffmpeg_fails_def env_ok_def yt_ref_A_def Let_def)

subsection \<open>Cancelling\<close>

text \<open>
  Claim C8. A cancel command received in any of the three states clears the session's
  \<open>video\<close> and \<open>streams\<close> and ends the conversation.

  In the state \<open>RESOLUTION\<close> the registered handler accepts every command, so
  \<open>/cancel\<close> never reaches the fallback: \<open>download_video\<close> takes it for a resolution
  command without an underscore, replies with the guidance text and stays in
  \<open>RESOLUTION\<close> with the session untouched, although its own replies offer \<open>/cancel\<close>
  in that state.
\<close>

theorem cancel_in_resolution_state_is_not_cancel:
  "handle_update env_ok ''/cancel'' (Some RESOLUTION, ctx_resolution) =
     (Some RESOLUTION, reply_text InvalidResolutionCommand ctx_resolution)"
  by (simp add: dispatch_defs download_video_def parse_resolution_def ctx_resolution_def)

subsection \<open>The size gate and the fetch\<close>

lemma find_Some_nonempty: "find P xs = Some x \<Longrightarrow> xs \<noteq> []"
  by (cases xs) simp_all

text \<open>
  Claim C3. In the video and in the audio pipeline the size gate is evaluated before
  any fetch is started, so a rejection by the gate downloads nothing and leaves no
  scratch file on disk.

  \<open>download_video\<close> does so (lines 88 to 97). \<open>download_audio\<close> downloads first
  (line 127) and compares afterwards (line 132) a size it knew before the download: for
  the audio stream of 60 MB the trace shows the fetch, then the rejection, then the
  removal of the fetched file.
\<close>

theorem audio_size_gate_runs_after_fetch:
  "download_audio env_ok (ctx_format\<lparr>video := Some yt_large_audio\<rparr>) =
     (URL,
      ctx_format\<lparr>video := Some yt_large_audio,
        outbox := outbox ctx_format @
          [FetchStarted stream_audio_large, Reply (AudioTooLarge 60),
           Removed ''downloads/ref-A.mp4'']\<rparr>)"
  by (simp add: download_audio_def download_audio_try_def first_audio_examples(3)
      size_mb_examples effect_defs ctx_format_def env_ok_def yt_large_audio_def Let_def)

text \<open>
  What a rejection leaves behind: \<open>download_video\<close> has fetched nothing and only adds
  its reply; \<open>download_audio\<close> removes the file it fetched.
\<close>

lemma size_gate_rejection:
  "size_mb s = Inr mb \<Longrightarrow> 50 < mb \<Longrightarrow>
     (video c = Some yt \<longrightarrow> streams c = Some strs \<longrightarrow> parse_resolution command = Some res
        \<longrightarrow> res \<noteq> [] \<longrightarrow> find (\<lambda>x. resolution x = Some res) strs = Some s
        \<longrightarrow> download_video ev command c = (RESOLUTION, reply_text (VideoTooLarge mb) c))
     \<and> (video c = Some yt \<longrightarrow> yt_streams yt = Inr all_streams
        \<longrightarrow> first (filter_only_audio all_streams) = Some s \<longrightarrow> download_result ev = Inr p
        \<longrightarrow> download_audio ev c =
              (URL, c\<lparr>files := files c - {p},
                     outbox := outbox c @ [FetchStarted s, Reply (AudioTooLarge mb), Removed p]\<rparr>))"
proof (intro conjI impI)
  assume g: "size_mb s = Inr mb" "50 < mb"
  assume h: "video c = Some yt" "streams c = Some strs" "parse_resolution command = Some res"
    "res \<noteq> []" "find (\<lambda>x. resolution x = Some res) strs = Some s"
  from h(5) have "strs \<noteq> []" by (rule find_Some_nonempty)
  with g h show "download_video ev command c = (RESOLUTION, reply_text (VideoTooLarge mb) c)"
    by (simp add: download_video_def download_video_try_def)
next
  assume g: "size_mb s = Inr mb" "50 < mb"
  assume h: "video c = Some yt" "yt_streams yt = Inr all_streams"
    "first (filter_only_audio all_streams) = Some s" "download_result ev = Inr p"
  with g show "download_audio ev c =
      (URL, c\<lparr>files := files c - {p},
             outbox := outbox c @ [FetchStarted s, Reply (AudioTooLarge mb), Removed p]\<rparr>)"
    by (simp add: download_audio_def download_audio_try_def effect_defs Let_def)
qed

subsection \<open>The size gate\<close>

lemma size_mb_cases:
  obtains (admitted) mb where "filesize s \<le> 50 * 1024 * 1024" "size_mb s = Inr mb" "\<not> 50 < mb"
  | (rejected) mb where "50 * 1024 * 1024 < filesize s" "size_mb s = Inr mb" "50 < mb"
  | (overflow) e where "50 * 1024 * 1024 < filesize s" "size_mb s = Inl e"
proof (cases "filesize s \<le> 50 * 1024 * 1024")
  case True
  with size_mb_gate [of s] obtain mb where "size_mb s = Inr mb" "\<not> 50 < mb" by blast
  with True show ?thesis by (rule admitted)
next
  case False
  then have f: "50 * 1024 * 1024 < filesize s" by simp
  show ?thesis
  proof (cases "size_mb s")
    case (Inl e)
    with f show ?thesis by (rule overflow)
  next
    case (Inr mb)
    with size_mb_gate [of s] False have "50 < mb" by auto
    with f Inr show ?thesis by (rule rejected)
  qed
qed

lemma video_gate:
  assumes "find (\<lambda>x. resolution x = Some res) strs = Some s"
  shows "FetchStarted s \<in> set (drop (length (outbox c))
            (outbox (snd (download_video_try ev res strs c))))
         \<longleftrightarrow> filesize s \<le> 50 * 1024 * 1024"
proof (cases s rule: size_mb_cases)
  case (admitted mb)
  with assms show ?thesis
    by (auto simp: download_video_try_def effect_defs Let_def
        split: sum.splits option.splits if_splits)
next
  case (rejected mb)
  with assms show ?thesis
    by (simp add: download_video_try_def effect_defs)
next
  case (overflow e)
  with assms show ?thesis
    by (simp add: download_video_try_def)
qed

lemma audio_gate:
  assumes "yt_streams yt = Inr all_streams" "first (filter_only_audio all_streams) = Some s"
    "download_result ev = Inr p" "ffmpeg_result ev = None"
  shows "Transcode p (py_replace ''.mp4'' ''.mp3'' p) \<in> set (drop (length (outbox c))
            (outbox (snd (download_audio_try ev yt c))))
         \<longleftrightarrow> filesize s \<le> 50 * 1024 * 1024"
proof (cases s rule: size_mb_cases)
  case (admitted mb)
  define q where "q = py_replace ''.mp4'' ''.mp3'' p"
  from admitted assms show ?thesis
    unfolding q_def [symmetric]
    by (auto simp: download_audio_try_def effect_defs Let_def q_def [symmetric]
        simp del: py_replace.simps split: option.splits)
next
  case (rejected mb)
  with assms show ?thesis
    by (simp add: download_audio_try_def effect_defs Let_def del: py_replace.simps)
next
  case (overflow e)
  with assms show ?thesis
    by (simp add: download_audio_try_def effect_defs Let_def del: py_replace.simps)
qed

text \<open>
  Claim C4. The size gate lets a stream through exactly when its size is at most
  \<open>50 * 1024 * 1024 = 52428800\<close> bytes, for the comparison as the handlers make it
  (the float \<open>size_mb\<close> against 50):
  \<^item> \<open>size_mb\<close> exists and is not above 50 exactly for these sizes; it is \<open>50.0\<close> at
    52428800 bytes and above 50 at 52428801 bytes;
  \<^item> \<open>download_video\<close>, for the stream the tag selects, starts the fetch exactly for
    these sizes, and answers a stream of 52428801 bytes with the rejection;
  \<^item> \<open>download_audio\<close>, once the stream is fetched, goes on to the transcode exactly
    for these sizes (shown where ffmpeg succeeds, which puts the transcode on the
    trace), and answers a stream of 52428801 bytes with the rejection.
\<close>

theorem size_gate_boundary:
  "((\<exists>mb. size_mb s = Inr mb \<and> \<not> 50 < mb) \<longleftrightarrow> filesize s \<le> 50 * 1024 * 1024)
   \<and> (filesize s = 52428800 \<longrightarrow> size_mb s = Inr 50)
   \<and> (filesize s = 52428801 \<longrightarrow> (\<exists>mb. size_mb s = Inr mb \<and> 50 < mb))
   \<and> (find (\<lambda>x. resolution x = Some res) strs = Some s \<longrightarrow>
        (FetchStarted s \<in> set (drop (length (outbox c))
            (outbox (snd (download_video_try ev res strs c))))
         \<longleftrightarrow> filesize s \<le> 50 * 1024 * 1024))
   \<and> (find (\<lambda>x. resolution x = Some res) strs = Some s \<longrightarrow> filesize s = 52428801 \<longrightarrow>
        download_video_try ev res strs c =
          (Inr RESOLUTION, reply_text (VideoTooLarge (52428801 / 1048576)) c))
   \<and> (yt_streams yt = Inr all_streams \<longrightarrow> first (filter_only_audio all_streams) = Some s
        \<longrightarrow> download_result ev = Inr p \<longrightarrow> ffmpeg_result ev = None \<longrightarrow>
        (Transcode p (py_replace ''.mp4'' ''.mp3'' p) \<in> set (drop (length (outbox c))
            (outbox (snd (download_audio_try ev yt c))))
         \<longleftrightarrow> filesize s \<le> 50 * 1024 * 1024))
   \<and> (yt_streams yt = Inr all_streams \<longrightarrow> first (filter_only_audio all_streams) = Some s
        \<longrightarrow> download_result ev = Inr p \<longrightarrow> filesize s = 52428801 \<longrightarrow>
        download_audio_try ev yt c =
          (Inr URL, c\<lparr>files := files c - {p},
             outbox := outbox c @
               [FetchStarted s, Reply (AudioTooLarge (52428801 / 1048576)), Removed p]\<rparr>))"
proof (intro conjI impI)
  show "(\<exists>mb. size_mb s = Inr mb \<and> \<not> 50 < mb) \<longleftrightarrow> filesize s \<le> 50 * 1024 * 1024"
    by (rule size_mb_gate)
next
  assume "filesize s = 52428800"
  then show "size_mb s = Inr 50"
    using size_mb_small [of s] by simp
next
  assume "filesize s = 52428801"
  then have "size_mb s = Inr (52428801 / 1048576)"
    using size_mb_small [of s] by simp
  moreover have "(50::rat) < 52428801 / 1048576" by simp
  ultimately show "\<exists>mb. size_mb s = Inr mb \<and> 50 < mb" by blast
next
  assume "find (\<lambda>x. resolution x = Some res) strs = Some s"
  then show "FetchStarted s \<in> set (drop (length (outbox c))
            (outbox (snd (download_video_try ev res strs c))))
         \<longleftrightarrow> filesize s \<le> 50 * 1024 * 1024"
    by (rule video_gate)
next
  assume f: "find (\<lambda>x. resolution x = Some res) strs = Some s" and "filesize s = 52428801"
  then have "size_mb s = Inr (52428801 / 1048576)"
    using size_mb_small [of s] by simp
  with f show "download_video_try ev res strs c =
      (Inr RESOLUTION, reply_text (VideoTooLarge (52428801 / 1048576)) c)"
    by (simp add: download_video_try_def)
next
  assume "yt_streams yt = Inr all_streams" "first (filter_only_audio all_streams) = Some s"
    "download_result ev = Inr p" "ffmpeg_result ev = None"
  then show "Transcode p (py_replace ''.mp4'' ''.mp3'' p) \<in> set (drop (length (outbox c))
            (outbox (snd (download_audio_try ev yt c))))
         \<longleftrightarrow> filesize s \<le> 50 * 1024 * 1024"
    by (rule audio_gate)
next
  assume h: "yt_streams yt = Inr all_streams" "first (filter_only_audio all_streams) = Some s"
    "download_result ev = Inr p" and "filesize s = 52428801"
  then have "size_mb s = Inr (52428801 / 1048576)"
    using size_mb_small [of s] by simp
  with h show "download_audio_try ev yt c =
      (Inr URL, c\<lparr>files := files c - {p},
         outbox := outbox c @
           [FetchStarted s, Reply (AudioTooLarge (52428801 / 1048576)), Removed p]\<rparr>)"
    by (simp add: download_audio_try_def effect_defs Let_def del: py_replace.simps)
qed

theorem size_gate_boundary_witness:
  "size_mb (stream_720p\<lparr>filesize := 52428800\<rparr>) = Inr 50
   \<and> FetchStarted (stream_720p\<lparr>filesize := 52428800\<rparr>)
       \<in> set (drop (length (outbox ctx_resolution))
           (outbox (snd (download_video_try env_ok ''720p''
              [stream_1080p, stream_720p\<lparr>filesize := 52428800\<rparr>] ctx_resolution))))
   \<and> download_video_try env_ok ''720p''
         [stream_1080p, stream_720p\<lparr>filesize := 52428801\<rparr>] ctx_resolution =
       (Inr RESOLUTION, reply_text (VideoTooLarge (52428801 / 1048576)) ctx_resolution)
   \<and> Transcode ''downloads/ref-A.mp4'' (py_replace ''.mp4'' ''.mp3'' ''downloads/ref-A.mp4'')
       \<in> set (drop (length (outbox ctx_format))
           (outbox (snd (download_audio_try env_ok
              \<lparr>yt_title = Inr ''ref-A'',
                 yt_streams = Inr [stream_audio_mp4\<lparr>filesize := 52428800\<rparr>]\<rparr> ctx_format))))
   \<and> download_audio_try env_ok
         \<lparr>yt_title = Inr ''ref-A'',
            yt_streams = Inr [stream_audio_mp4\<lparr>filesize := 52428801\<rparr>]\<rparr> ctx_format =
       (Inr URL, ctx_format\<lparr>files := files ctx_format - {''downloads/ref-A.mp4''},
          outbox := outbox ctx_format @
            [FetchStarted (stream_audio_mp4\<lparr>filesize := 52428801\<rparr>),
             Reply (AudioTooLarge (52428801 / 1048576)), Removed ''downloads/ref-A.mp4'']\<rparr>)"
proof -
  have f0: "find (\<lambda>x. resolution x = Some ''720p'')
      [stream_1080p, stream_720p\<lparr>filesize := 52428800\<rparr>]
      = Some (stream_720p\<lparr>filesize := 52428800\<rparr>)"
    by (simp add: resolution_examples)
  have f1: "find (\<lambda>x. resolution x = Some ''720p'')
      [stream_1080p, stream_720p\<lparr>filesize := 52428801\<rparr>]
      = Some (stream_720p\<lparr>filesize := 52428801\<rparr>)"
    by (simp add: resolution_examples)
  have a0: "first (filter_only_audio [stream_audio_mp4\<lparr>filesize := 52428800\<rparr>])
      = Some (stream_audio_mp4\<lparr>filesize := 52428800\<rparr>)"
    by (simp add: first_def filter_only_audio_def includes_audio_track_def
        includes_video_track_def stream_audio_mp4_def)
  have a1: "first (filter_only_audio [stream_audio_mp4\<lparr>filesize := 52428801\<rparr>])
      = Some (stream_audio_mp4\<lparr>filesize := 52428801\<rparr>)"
    by (simp add: first_def filter_only_audio_def includes_audio_track_def
        includes_video_track_def stream_audio_mp4_def)
  have e: "download_result env_ok = Inr ''downloads/ref-A.mp4''" "ffmpeg_result env_ok = None"
    by (simp_all add: env_ok_def)
  from size_gate_boundary
    [where s = "stream_720p\<lparr>filesize := 52428800\<rparr>" and res = "''720p''"
      and strs = "[stream_1080p, stream_720p\<lparr>filesize := 52428800\<rparr>]"
      and c = ctx_resolution and ev = env_ok]
    f0
  have 1: "size_mb (stream_720p\<lparr>filesize := 52428800\<rparr>) = Inr 50"
    and 2: "FetchStarted (stream_720p\<lparr>filesize := 52428800\<rparr>)
       \<in> set (drop (length (outbox ctx_resolution))
           (outbox (snd (download_video_try env_ok ''720p''
              [stream_1080p, stream_720p\<lparr>filesize := 52428800\<rparr>] ctx_resolution))))"
    by simp_all
  from size_gate_boundary
    [where s = "stream_720p\<lparr>filesize := 52428801\<rparr>" and res = "''720p''"
      and strs = "[stream_1080p, stream_720p\<lparr>filesize := 52428801\<rparr>]"
      and c = ctx_resolution and ev = env_ok]
    f1
  have 3: "download_video_try env_ok ''720p''
         [stream_1080p, stream_720p\<lparr>filesize := 52428801\<rparr>] ctx_resolution =
       (Inr RESOLUTION, reply_text (VideoTooLarge (52428801 / 1048576)) ctx_resolution)"
    by simp
  from size_gate_boundary
    [where s = "stream_audio_mp4\<lparr>filesize := 52428800\<rparr>"
      and yt = "\<lparr>yt_title = Inr ''ref-A'',
                 yt_streams = Inr [stream_audio_mp4\<lparr>filesize := 52428800\<rparr>]\<rparr>"
      and all_streams = "[stream_audio_mp4\<lparr>filesize := 52428800\<rparr>]"
      and c = ctx_format and ev = env_ok and p = "''downloads/ref-A.mp4''"]
    a0 e
  have 4: "Transcode ''downloads/ref-A.mp4'' (py_replace ''.mp4'' ''.mp3'' ''downloads/ref-A.mp4'')
       \<in> set (drop (length (outbox ctx_format))
           (outbox (snd (download_audio_try env_ok
              \<lparr>yt_title = Inr ''ref-A'',
                 yt_streams = Inr [stream_audio_mp4\<lparr>filesize := 52428800\<rparr>]\<rparr> ctx_format))))"
    by (simp del: py_replace.simps)
  from size_gate_boundary
    [where s = "stream_audio_mp4\<lparr>filesize := 52428801\<rparr>"
      and yt = "\<lparr>yt_title = Inr ''ref-A'',
                 yt_streams = Inr [stream_audio_mp4\<lparr>filesize := 52428801\<rparr>]\<rparr>"
      and all_streams = "[stream_audio_mp4\<lparr>filesize := 52428801\<rparr>]"
      and c = ctx_format and ev = env_ok and p = "''downloads/ref-A.mp4''"]
    a1 e
  have 5: "download_audio_try env_ok
         \<lparr>yt_title = Inr ''ref-A'',
            yt_streams = Inr [stream_audio_mp4\<lparr>filesize := 52428801\<rparr>]\<rparr> ctx_format =
       (Inr URL, ctx_format\<lparr>files := files ctx_format - {''downloads/ref-A.mp4''},
          outbox := outbox ctx_format @
            [FetchStarted (stream_audio_mp4\<lparr>filesize := 52428801\<rparr>),
             Reply (AudioTooLarge (52428801 / 1048576)), Removed ''downloads/ref-A.mp4'']\<rparr>)"
    by simp
  from 1 2 3 4 5 show ?thesis by (intro conjI)
qed

subsection \<open>The state after a resolution command\<close>

text \<open>
  Claim C6. When a resolution command in state \<open>RESOLUTION\<close> leads to a download or
  delivery failure, the next state is \<open>URL\<close>; the session stays in \<open>RESOLUTION\<close> only
  for an unknown tag or a size-gate rejection.

  The \<open>except\<close> branch of \<open>download_video\<close> returns \<open>RESOLUTION\<close> (line 110): after a
  failed download the session stays in \<open>RESOLUTION\<close>.
\<close>

theorem download_failure_stays_in_resolution:
  "download_video env_download_fails ''/res_720p'' ctx_resolution =
     (RESOLUTION,
      ctx_resolution\<lparr>outbox := outbox ctx_resolution @
          [FetchStarted stream_720p, Reply (ErrorDownloadingVideo NetworkError)]\<rparr>)"
  by (simp add: download_video_def download_video_try_def parse_res_720p resolution_examples
      size_mb_examples effect_defs ctx_resolution_def env_download_fails_def env_ok_def)

text \<open>
  Claim C6, amended. With the session's \<open>video\<close> and a non-empty catalog stored,
  \<open>download_video\<close> returns \<open>URL\<close> exactly when the command names a stream of the
  catalog, the size gate admits it, the download succeeds and the send succeeds. In
  every other case (a command without a tag, an unknown tag, a size-gate rejection, a
  download failure, a delivery failure) it returns \<open>RESOLUTION\<close>.
\<close>

theorem download_video_next_state:
  "video c = Some yt \<Longrightarrow> streams c = Some strs \<Longrightarrow> strs \<noteq> [] \<Longrightarrow>
     fst (download_video ev command c) =
       (if \<exists>res s mb p. parse_resolution command = Some res \<and> res \<noteq> []
             \<and> find (\<lambda>x. resolution x = Some res) strs = Some s
             \<and> size_mb s = Inr mb \<and> \<not> 50 < mb
             \<and> download_result ev = Inr p \<and> send_result ev = None
        then URL else RESOLUTION)"
  by (auto simp: download_video_def download_video_try_def effect_defs Let_def
      split: option.splits sum.splits prod.splits if_splits)

theorem download_video_next_state_witness:
  "fst (download_video env_download_fails ''/res_720p'' ctx_resolution) = RESOLUTION
   \<and> fst (download_video env_send_fails ''/res_720p'' ctx_resolution) = RESOLUTION
   \<and> fst (download_video env_ok ''/res_720p'' ctx_resolution) = URL"
proof -
  have c: "video ctx_resolution = Some yt_ref_A"
    "streams ctx_resolution = Some [stream_1080p, stream_720p]"
    "[stream_1080p, stream_720p] \<noteq> []"
    by (simp_all add: ctx_resolution_def)
  have "\<exists>res s mb p. parse_resolution ''/res_720p'' = Some res \<and> res \<noteq> []
             \<and> find (\<lambda>x. resolution x = Some res) [stream_1080p, stream_720p] = Some s
             \<and> size_mb s = Inr mb \<and> \<not> 50 < mb
             \<and> download_result env_ok = Inr p \<and> send_result env_ok = None"
    by (simp add: parse_res_720p resolution_examples size_mb_examples env_ok_def)
  then show ?thesis
    using download_video_next_state [OF c, of env_download_fails "''/res_720p''"]
      download_video_next_state [OF c, of env_send_fails "''/res_720p''"]
      download_video_next_state [OF c, of env_ok "''/res_720p''"]
    by (simp add: env_download_fails_def env_send_fails_def)
qed

subsection \<open>Parsing the resolution command\<close>

lemma py_split_length:
  "length (py_split sep s) = Suc (length (filter (\<lambda>c. c = sep) s))"
  by (induction s) (auto split: list.splits)

lemma py_split_no_sep: "sep \<notin> set s \<Longrightarrow> py_split sep s = [s]"
  by (induction s) auto

lemma last_py_split:
  "sep \<notin> set seg \<Longrightarrow> last (py_split sep (pre @ sep # seg)) = seg"
proof (induction pre)
  case Nil
  then show ?case by (simp add: py_split_no_sep)
next
  case (Cons c pre)
  have "length (py_split sep (pre @ sep # seg)) \<ge> 2"
    by (simp add: py_split_length)
  then obtain w v ws where w: "py_split sep (pre @ sep # seg) = w # v # ws"
    by (cases "py_split sep (pre @ sep # seg)" rule: list.exhaust)
      (auto simp: Suc_le_eq numeral_2_eq_2 neq_Nil_conv)
  with Cons show ?case by auto
qed

lemma parse_resolution_segment:
  "CHR ''_'' \<notin> set seg \<Longrightarrow> parse_resolution (pre @ CHR ''_'' # seg) = Some seg"
  by (simp add: parse_resolution_def last_py_split)

text \<open>
  Claim C9. In state \<open>RESOLUTION\<close>, with the media reference and a catalog stored,
  the tag is the part of the command after its last underscore: a command \<open>pre_seg\<close>,
  where \<open>seg\<close> has no underscore, gives the candidate tag \<open>seg\<close> (\<open>/foo_720p\<close> gives
  \<open>720p\<close>), and a tag that is not empty is the one looked up in the catalog; a command
  without an underscore gets the invalid-command reply and leaves the session in
  \<open>RESOLUTION\<close>, unchanged otherwise. (An empty tag, as in \<open>/res_\<close>, is answered like
  a command without an underscore. Without the stored data the guard of lines 69 to 71
  answers first.)
\<close>

theorem parse_resolution_last_segment:
  "(CHR ''_'' \<notin> set seg \<longrightarrow> parse_resolution (pre @ CHR ''_'' # seg) = Some seg)
   \<and> parse_resolution ''/foo_720p'' = Some ''720p''
   \<and> (CHR ''_'' \<notin> set seg \<longrightarrow> seg \<noteq> [] \<longrightarrow> video c = Some yt \<longrightarrow> streams c = Some strs
        \<longrightarrow> strs \<noteq> []
        \<longrightarrow> download_video ev (pre @ CHR ''_'' # seg) c =
              (case download_video_try ev seg strs c of
                 (Inr st, c1) \<Rightarrow> (st, c1)
               | (Inl e, c1) \<Rightarrow> (RESOLUTION, reply_text (ErrorDownloadingVideo e) c1)))
   \<and> (CHR ''_'' \<notin> set command \<longrightarrow> video c = Some yt \<longrightarrow> streams c = Some strs
        \<longrightarrow> strs \<noteq> []
        \<longrightarrow> download_video ev command c = (RESOLUTION, reply_text InvalidResolutionCommand c))"
proof (intro conjI impI)
  assume "CHR ''_'' \<notin> set seg"
  then show "parse_resolution (pre @ CHR ''_'' # seg) = Some seg"
    by (rule parse_resolution_segment)
next
  show "parse_resolution ''/foo_720p'' = Some ''720p''"
    by (simp add: parse_resolution_def)
next
  assume "CHR ''_'' \<notin> set seg" "seg \<noteq> []" "video c = Some yt" "streams c = Some strs"
    "strs \<noteq> []"
  then show "download_video ev (pre @ CHR ''_'' # seg) c =
      (case download_video_try ev seg strs c of
         (Inr st, c1) \<Rightarrow> (st, c1)
       | (Inl e, c1) \<Rightarrow> (RESOLUTION, reply_text (ErrorDownloadingVideo e) c1))"
    by (simp add: download_video_def parse_resolution_segment)
next
  assume "CHR ''_'' \<notin> set command" "video c = Some yt" "streams c = Some strs" "strs \<noteq> []"
  then show "download_video ev command c = (RESOLUTION, reply_text InvalidResolutionCommand c)"
    by (simp add: download_video_def parse_resolution_def)
qed

theorem parse_resolution_last_segment_witness:
  "parse_resolution (''/foo'' @ CHR ''_'' # ''720p'') = Some ''720p''
   \<and> download_video env_ok (''/foo'' @ CHR ''_'' # ''720p'') ctx_resolution =
       (URL, ctx_resolution\<lparr>outbox := outbox ctx_resolution @
          [FetchStarted stream_720p, Reply (DownloadedSending ''720p''),
           SentVideo ''downloads/ref-A.mp4'', Removed ''downloads/ref-A.mp4'', Reply Done]\<rparr>)
   \<and> download_video env_ok ''/cancel'' ctx_resolution =
       (RESOLUTION, reply_text InvalidResolutionCommand ctx_resolution)"
proof -
  have n: "CHR ''_'' \<notin> set ''720p''" "''720p'' \<noteq> []" "CHR ''_'' \<notin> set ''/cancel''"
    by simp_all
  have s: "video ctx_resolution = Some yt_ref_A"
    "streams ctx_resolution = Some [stream_1080p, stream_720p]"
    by (simp_all add: ctx_resolution_def)
  have t: "download_video_try env_ok ''720p'' [stream_1080p, stream_720p] ctx_resolution =
      (Inr URL, ctx_resolution\<lparr>outbox := outbox ctx_resolution @
          [FetchStarted stream_720p, Reply (DownloadedSending ''720p''),
           SentVideo ''downloads/ref-A.mp4'', Removed ''downloads/ref-A.mp4'', Reply Done]\<rparr>)"
    by (simp add: download_video_try_def resolution_examples size_mb_examples effect_defs
        ctx_resolution_def env_ok_def)
  from parse_resolution_last_segment
    [where seg = "''720p''" and pre = "''/foo''" and c = ctx_resolution and yt = yt_ref_A
      and strs = "[stream_1080p, stream_720p]" and ev = env_ok and command = "''/cancel''"]
    n s
  show ?thesis by (simp add: t)
qed

subsection \<open>The session's data in each state\<close>

lemma run_delivery:
  "handle_update env_ok ''/res_720p'' (Some RESOLUTION, ctx_resolution) =
     (Some URL, ctx_resolution\<lparr>outbox := outbox ctx_resolution @
          [FetchStarted stream_720p, Reply (DownloadedSending ''720p''),
           SentVideo ''downloads/ref-A.mp4'', Removed ''downloads/ref-A.mp4'', Reply Done]\<rparr>)"
  by (simp add: dispatch_defs download_video_def download_video_try_def parse_res_720p
      resolution_examples size_mb_examples effect_defs ctx_resolution_def env_ok_def)

text \<open>
  Claim C2. In every reachable session state the catalog is stored if and only if the
  state is \<open>RESOLUTION\<close>, and the media reference is stored in all states but \<open>URL\<close>;
  every transition, also a successful delivery that returns to \<open>URL\<close>, keeps this.

  Only \<open>cancel\<close> clears \<open>user_data\<close>. After a successful delivery in the example
  session the state is \<open>URL\<close> and both keys are still set: the catalog is stored
  outside \<open>RESOLUTION\<close>.
\<close>

theorem catalog_kept_after_delivery:
  "reachable (process_update env_ok 0 ''/res_720p''
      ([0 \<mapsto> RESOLUTION], ctx_resolution))
   \<and> fst (process_update env_ok 0 ''/res_720p''
      ([0 \<mapsto> RESOLUTION], ctx_resolution)) 0 = Some URL
   \<and> streams (snd (process_update env_ok 0 ''/res_720p''
      ([0 \<mapsto> RESOLUTION], ctx_resolution))) = Some [stream_1080p, stream_720p]
   \<and> video (snd (process_update env_ok 0 ''/res_720p''
      ([0 \<mapsto> RESOLUTION], ctx_resolution))) = Some yt_ref_A"
proof -
  have "reachable (process_update env_ok 0 ''/res_720p''
      ([0 \<mapsto> RESOLUTION], ctx_resolution))"
    using reachable_ctx_resolution by (rule reach_step)
  then show ?thesis
    by (simp add: process_update_def run_delivery) (simp add: ctx_resolution_def)
qed

text \<open>
  The other direction has a limit too. The dictionary is the user's and the state is
  the chat's: a \<open>/cancel\<close> in a second chat clears the dictionary under a conversation
  that is in \<open>RESOLUTION\<close> in the first. The handlers do not rely on the data being
  there: each starts with a guard (lines 38, 69 and 115).
\<close>

lemma cancel_from_another_chat:
  "reachable ([0 \<mapsto> RESOLUTION],
      (reply_text OperationCancelled (reply_text Welcome ctx_resolution))
        \<lparr>video := None, streams := None\<rparr>)"
proof -
  have 1: "process_update env_ok 1 ''/start'' ([0 \<mapsto> RESOLUTION], ctx_resolution)
      = ([0 \<mapsto> RESOLUTION, 1 \<mapsto> URL], reply_text Welcome ctx_resolution)"
    by (simp add: process_update_def dispatch_defs start_def)
  have 2: "process_update env_ok 1 ''/cancel''
        ([0 \<mapsto> RESOLUTION, 1 \<mapsto> URL], reply_text Welcome ctx_resolution)
      = ([0 \<mapsto> RESOLUTION],
         (reply_text OperationCancelled (reply_text Welcome ctx_resolution))
           \<lparr>video := None, streams := None\<rparr>)"
    by (simp add: process_update_def dispatch_defs cancel_def fun_upd_twist)
  have "reachable (process_update env_ok 1 ''/cancel''
      (process_update env_ok 1 ''/start'' ([0 \<mapsto> RESOLUTION], ctx_resolution)))"
    by (intro reach_step reachable_ctx_resolution)
  then show ?thesis by (simp only: 1 2)
qed

text \<open>
  Claim C2, amended. Call a session state sound when every chat of the user in
  \<open>RESOLUTION\<close> finds a catalog that is not empty and the media reference stored, and
  every chat in \<open>FORMAT\<close> finds the media reference stored (either may be stored in
  the other states too).
  \<^item> The fresh process has no conversation, so its state is sound.
  \<^item> Every transition keeps a sound state sound, but a \<open>cancel\<close> handled in one chat
    while another chat of the same user is in \<open>FORMAT\<close> or \<open>RESOLUTION\<close>.
  \<^item> Whatever the state before: the conversation that handles an update and goes to
    \<open>FORMAT\<close> has the media reference stored, and one that goes to \<open>RESOLUTION\<close> has
    the media reference and a catalog that is not empty.
\<close>

theorem session_invariant:
  "(\<forall>j. fst initial j = None)
   \<and> ((\<forall>j. (convs j = Some FORMAT \<longrightarrow> video c \<noteq> None)
            \<and> (convs j = Some RESOLUTION \<longrightarrow>
                 video c \<noteq> None \<and> (\<exists>strs. streams c = Some strs \<and> strs \<noteq> [])))
        \<longrightarrow> (select_handler (convs k) t = Some Cancel \<longrightarrow>
              (\<forall>j. j \<noteq> k \<longrightarrow> convs j \<noteq> Some FORMAT \<and> convs j \<noteq> Some RESOLUTION))
        \<longrightarrow> (\<forall>j. (fst (process_update ev k t (convs, c)) j = Some FORMAT \<longrightarrow>
                    video (snd (process_update ev k t (convs, c))) \<noteq> None)
                \<and> (fst (process_update ev k t (convs, c)) j = Some RESOLUTION \<longrightarrow>
                    video (snd (process_update ev k t (convs, c))) \<noteq> None
                    \<and> (\<exists>strs. streams (snd (process_update ev k t (convs, c))) = Some strs
                          \<and> strs \<noteq> []))))
   \<and> (select_handler (convs k) t \<noteq> None
        \<longrightarrow> (fst (process_update ev k t (convs, c)) k = Some FORMAT \<longrightarrow>
                video (snd (process_update ev k t (convs, c))) \<noteq> None)
            \<and> (fst (process_update ev k t (convs, c)) k = Some RESOLUTION \<longrightarrow>
                video (snd (process_update ev k t (convs, c))) \<noteq> None
                \<and> (\<exists>strs. streams (snd (process_update ev k t (convs, c))) = Some strs
                      \<and> strs \<noteq> [])))"
proof (intro conjI impI)
  show "\<forall>j. fst initial j = None" by (simp add: initial_def)
next
  assume "\<forall>j. (convs j = Some FORMAT \<longrightarrow> video c \<noteq> None)
            \<and> (convs j = Some RESOLUTION \<longrightarrow>
                 video c \<noteq> None \<and> (\<exists>strs. streams c = Some strs \<and> strs \<noteq> []))"
    and "select_handler (convs k) t = Some Cancel \<longrightarrow>
              (\<forall>j. j \<noteq> k \<longrightarrow> convs j \<noteq> Some FORMAT \<and> convs j \<noteq> Some RESOLUTION)"
  then show "\<forall>j. (fst (process_update ev k t (convs, c)) j = Some FORMAT \<longrightarrow>
                    video (snd (process_update ev k t (convs, c))) \<noteq> None)
                \<and> (fst (process_update ev k t (convs, c)) j = Some RESOLUTION \<longrightarrow>
                    video (snd (process_update ev k t (convs, c))) \<noteq> None
                    \<and> (\<exists>strs. streams (snd (process_update ev k t (convs, c))) = Some strs
                          \<and> strs \<noteq> []))"
    by (rule process_update_inv)
next
  assume s: "select_handler (convs k) t \<noteq> None"
  assume "fst (process_update ev k t (convs, c)) k = Some FORMAT"
  with process_update_post [where convs = convs and k = k, OF s, of ev c]
  show "video (snd (process_update ev k t (convs, c))) \<noteq> None" by simp
next
  assume s: "select_handler (convs k) t \<noteq> None"
  assume "fst (process_update ev k t (convs, c)) k = Some RESOLUTION"
  with process_update_post [where convs = convs and k = k, OF s, of ev c]
  show "video (snd (process_update ev k t (convs, c))) \<noteq> None" by simp
next
  assume s: "select_handler (convs k) t \<noteq> None"
  assume "fst (process_update ev k t (convs, c)) k = Some RESOLUTION"
  with process_update_post [where convs = convs and k = k, OF s, of ev c]
  show "\<exists>strs. streams (snd (process_update ev k t (convs, c))) = Some strs \<and> strs \<noteq> []"
    by simp
qed

theorem session_invariant_witness:
  "fst (process_update env_ok 0 ''/video'' ([0 \<mapsto> FORMAT], ctx_format)) 0
     = Some RESOLUTION
   \<and> video (snd (process_update env_ok 0 ''/video''
        ([0 \<mapsto> FORMAT], ctx_format))) \<noteq> None
   \<and> (\<exists>strs. streams (snd (process_update env_ok 0 ''/video''
        ([0 \<mapsto> FORMAT], ctx_format))) = Some strs \<and> strs \<noteq> [])"
proof -
  have r: "fst (process_update env_ok 0 ''/video''
      ([0 \<mapsto> FORMAT], ctx_format)) 0 = Some RESOLUTION"
    by (simp add: process_update_def run_to_resolution)
  have i: "\<forall>j. ([0 \<mapsto> FORMAT] j = Some FORMAT \<longrightarrow> video ctx_format \<noteq> None)
      \<and> ([0 \<mapsto> FORMAT] j = Some RESOLUTION \<longrightarrow>
           video ctx_format \<noteq> None \<and> (\<exists>strs. streams ctx_format = Some strs \<and> strs \<noteq> []))"
    by (simp add: ctx_format_def)
  have s: "select_handler ([0 \<mapsto> FORMAT] 0) ''/video'' = Some Cancel \<longrightarrow>
      (\<forall>j. j \<noteq> 0 \<longrightarrow> [0 \<mapsto> FORMAT] j \<noteq> Some FORMAT
        \<and> [0 \<mapsto> FORMAT] j \<noteq> Some RESOLUTION)"
    by simp
  from session_invariant
    [where convs = "[0 \<mapsto> FORMAT]" and c = ctx_format and k = 0
      and t = "''/video''" and ev = env_ok]
    i s
  have "\<forall>j. (fst (process_update env_ok 0 ''/video''
            ([0 \<mapsto> FORMAT], ctx_format)) j = Some RESOLUTION \<longrightarrow>
          video (snd (process_update env_ok 0 ''/video''
            ([0 \<mapsto> FORMAT], ctx_format))) \<noteq> None
          \<and> (\<exists>strs. streams (snd (process_update env_ok 0 ''/video''
            ([0 \<mapsto> FORMAT], ctx_format))) = Some strs \<and> strs \<noteq> []))"
    by blast
  with r show ?thesis by blast
qed

subsection \<open>The order of the catalog\<close>

lemma desc_sort_key_sorted:
  "sorted_wrt (\<lambda>a b. f b \<le> f a) (desc (sort_key f xs))"
proof -
  have "sorted (map f (sort_key f xs))" by (rule sorted_sort_key)
  then have "sorted_wrt (\<lambda>a b. f a \<le> f b) (sort_key f xs)" by (simp only: sorted_map)
  then show ?thesis by (simp add: desc_def sorted_wrt_rev)
qed

lemma desc_sort_key_ties:
  "filter (\<lambda>s. f s = k) (desc (sort_key f xs)) = rev (filter (\<lambda>s. f s = k) xs)"
  by (simp add: desc_def sort_key_stable flip: rev_filter)

lemma catalog_720p_pair:
  "catalog [stream_720p_60fps, stream_720p] = [stream_720p, stream_720p_60fps]"
  by (simp add: catalog_def desc_def order_by_resolution_def filter_progressive_mp4_def Let_def
      resolution_key_examples)
    (simp add: example_defs is_digit_def resolution_str_def)

text \<open>
  Claim C7. The catalog of progressive video streams is sorted by resolution
  descending, ties broken by fps descending, then by size descending, then by the
  provider's order; enumerating the same provider data again gives the same order.

  \<open>select_video\<close> orders by resolution only and then reverses: two streams of the same
  resolution come out in the reverse of the provider's order, whatever their fps and
  size. Here the 720p stream of 30 fps and 30 MB comes before the 720p stream of 60 fps
  and 40 MB.
\<close>

theorem equal_resolutions_not_ordered_by_fps:
  "catalog [stream_720p_60fps, stream_720p] = [stream_720p, stream_720p_60fps]
   \<and> map resolution (catalog [stream_720p_60fps, stream_720p]) = [Some ''720p'', Some ''720p'']
   \<and> map fps (catalog [stream_720p_60fps, stream_720p]) = [30, 60]
   \<and> map filesize (catalog [stream_720p_60fps, stream_720p]) = [31457280, 41943040]"
  by (simp add: catalog_720p_pair) (simp add: example_defs)

text \<open>
  Claim C7, amended. The catalog is sorted by resolution descending (by the number in
  the label; by the label itself when some label has no digit), and streams of equal
  resolution are in the reverse of the provider's order: there is no tie-break on fps
  or size. The catalog is a function of the provider's data, so the same data gives
  the same order.
\<close>

theorem catalog_order:
  "(list_all (\<lambda>s. filter is_digit (resolution_str s) \<noteq> [])
       (filter (\<lambda>s. resolution s \<noteq> None) (filter_progressive_mp4 xs)) \<longrightarrow>
      sorted_wrt (\<lambda>a b. resolution_key b \<le> resolution_key a) (catalog xs)
      \<and> filter (\<lambda>s. resolution_key s = k) (catalog xs) =
          rev (filter (\<lambda>s. resolution_key s = k)
                (filter (\<lambda>s. resolution s \<noteq> None) (filter_progressive_mp4 xs))))
   \<and> (\<not> list_all (\<lambda>s. filter is_digit (resolution_str s) \<noteq> [])
       (filter (\<lambda>s. resolution s \<noteq> None) (filter_progressive_mp4 xs)) \<longrightarrow>
      sorted_wrt (\<lambda>a b. resolution_str b \<le> resolution_str a) (catalog xs)
      \<and> filter (\<lambda>s. resolution_str s = r) (catalog xs) =
          rev (filter (\<lambda>s. resolution_str s = r)
                (filter (\<lambda>s. resolution s \<noteq> None) (filter_progressive_mp4 xs))))
   \<and> (xs = ys \<longrightarrow> catalog xs = catalog ys)"
proof -
  define has where "has = filter (\<lambda>s. resolution s \<noteq> None) (filter_progressive_mp4 xs)"
  define digits where "digits = list_all (\<lambda>s. filter is_digit (resolution_str s) \<noteq> []) has"
  have c: "catalog xs =
      (if digits then desc (sort_key resolution_key has) else desc (sort_key resolution_str has))"
    by (simp add: catalog_def order_by_resolution_def Let_def has_def digits_def)
  show ?thesis
    unfolding has_def [symmetric] digits_def [symmetric]
    by (simp add: c desc_sort_key_sorted desc_sort_key_ties)
qed

theorem catalog_order_witness:
  "sorted_wrt (\<lambda>a b. resolution_key b \<le> resolution_key a)
      (catalog [stream_720p_60fps, stream_1080p, stream_audio_mp4, stream_720p])
   \<and> filter (\<lambda>s. resolution_key s = 720)
        (catalog [stream_720p_60fps, stream_1080p, stream_audio_mp4, stream_720p]) =
      rev (filter (\<lambda>s. resolution_key s = 720)
        (filter (\<lambda>s. resolution s \<noteq> None)
          (filter_progressive_mp4 [stream_720p_60fps, stream_1080p, stream_audio_mp4, stream_720p])))"
proof -
  have "list_all (\<lambda>s. filter is_digit (resolution_str s) \<noteq> [])
       (filter (\<lambda>s. resolution s \<noteq> None)
         (filter_progressive_mp4 [stream_720p_60fps, stream_1080p, stream_audio_mp4, stream_720p]))"
    by (simp add: filter_progressive_mp4_def example_defs resolution_str_def is_digit_def)
  with catalog_order [of "[stream_720p_60fps, stream_1080p, stream_audio_mp4, stream_720p]" 720]
  show ?thesis by blast
qed

subsection \<open>The MP3 path\<close>












end
